theory Spec2Isabelle
  imports Complex_Main "HOL-Library.Word"
begin

unbundle bit_operations_syntax

section \<open>Errors and Python primitives\<close>

text \<open>
  The module \<^verbatim>\<open>recommender_helper.py\<close> is modelled function by function.
  Python exceptions are values of \<open>py_error\<close>; a function that can raise returns
  \<open>py_error + 'a\<close>.
\<close>

datatype py_error =
    ValueError_min_empty        \<comment> \<open>\<^verbatim>\<open>min() arg is an empty sequence\<close>\<close>
  | ValueError_invalid_literal  \<comment> \<open>\<^verbatim>\<open>invalid literal for int() with base 16\<close>\<close>
  | ValueError_zero_size        \<comment> \<open>numpy reduction over a zero-size array\<close>
  | Shape_mismatch              \<comment> \<open>numpy IndexError / cv2.error on arrays of different shape\<close>
  | Cv2_error_empty             \<comment> \<open>cv2.error of \<^verbatim>\<open>cvtColor\<close> on an image without elements\<close>

type_synonym color = "int \<times> int \<times> int"

subsection \<open>Floating point\<close>

text \<open>
  A Python float is an IEEE 754 double and OpenCV blends in single precision.  A float is
  modelled as the real number it denotes, and every operation on floats as the exact
  operation followed by rounding to the nearest representable number, a tie going to the
  even significand.  \<open>expo x\<close> is the binary exponent of a positive number,
  \<open>2 powi expo x \<le> x < 2 powi (expo x + 1)\<close>; \<open>round_to p\<close> rounds to a significand of
  \<open>p\<close> bits.  The exponent range is not bounded: overflow and subnormal numbers do not
  occur on the values in this module (integers, colour channels and weights).
\<close>

definition round_half_even :: "real \<Rightarrow> int" where
  "round_half_even x =
     (let f = \<lfloor>x\<rfloor>; d = x - of_int f in
      if d < 1 / 2 then f
      else if 1 / 2 < d then f + 1
      else if even f then f else f + 1)"

function expo :: "real \<Rightarrow> int" where
  "expo x = (if x \<le> 0 then 0
             else if 2 \<le> x then expo (x / 2) + 1
             else if x < 1 then expo (x * 2) - 1
             else 0)"
  by pat_completeness auto
termination
proof (relation "measure (\<lambda>x. nat \<bar>\<lfloor>log 2 x\<rfloor>\<bar>)")
  show "wf (measure (\<lambda>x. nat \<bar>\<lfloor>log 2 x\<rfloor>\<bar>))" by simp
next
  fix x :: real
  assume x: "\<not> x \<le> 0" "2 \<le> x"
  then have "log 2 (x / 2) = log 2 x - 1" by (simp add: log_divide)
  then have f: "\<lfloor>log 2 (x / 2)\<rfloor> = \<lfloor>log 2 x\<rfloor> - 1" by simp
  have "1 \<le> log 2 x" using x by (simp add: le_log_iff)
  then have "1 \<le> \<lfloor>log 2 x\<rfloor>" by (simp add: le_floor_iff)
  with f have "nat \<bar>\<lfloor>log 2 (x / 2)\<rfloor>\<bar> < nat \<bar>\<lfloor>log 2 x\<rfloor>\<bar>" by simp
  then show "(x / 2, x) \<in> measure (\<lambda>x. nat \<bar>\<lfloor>log 2 x\<rfloor>\<bar>)" by simp
next
  fix x :: real
  assume x: "\<not> x \<le> 0" "\<not> 2 \<le> x" "x < 1"
  then have "log 2 (x * 2) = log 2 x + 1" by (simp add: log_mult)
  then have f: "\<lfloor>log 2 (x * 2)\<rfloor> = \<lfloor>log 2 x\<rfloor> + 1" by simp
  have "log 2 x < 0" using x by simp
  then have "\<lfloor>log 2 x\<rfloor> \<le> - 1" by (simp add: floor_le_iff)
  with f have "nat \<bar>\<lfloor>log 2 (x * 2)\<rfloor>\<bar> < nat \<bar>\<lfloor>log 2 x\<rfloor>\<bar>" by simp
  then show "(x * 2, x) \<in> measure (\<lambda>x. nat \<bar>\<lfloor>log 2 x\<rfloor>\<bar>)" by simp
qed

declare expo.simps [simp del]

definition round_to :: "nat \<Rightarrow> real \<Rightarrow> real" where
  "round_to p x =
     (if x = 0 then 0
      else let u = 2 powi (expo \<bar>x\<bar> - (int p - 1))
           in of_int (round_half_even (x / u)) * u)"

text \<open>\<open>fl\<close> rounds to a double (Python \<^verbatim>\<open>float\<close>, NumPy \<^verbatim>\<open>float64\<close>), \<open>fl32\<close> to a single
  (OpenCV's \<^verbatim>\<open>float\<close>).  A literal such as \<^verbatim>\<open>0.9\<close> is \<open>fl (9 / 10)\<close>.\<close>

definition fl :: "real \<Rightarrow> real" where
  "fl x = round_to 53 x"

definition fl32 :: "real \<Rightarrow> real" where
  "fl32 x = round_to 24 x"

subsection \<open>Integers and strings\<close>

text \<open>\<^verbatim>\<open>int(x)\<close> on a float truncates towards zero.\<close>

definition py_int :: "real \<Rightarrow> int" where
  "py_int x = (if 0 \<le> x then \<lfloor>x\<rfloor> else \<lceil>x\<rceil>)"

text \<open>A character is a code point below 256.  \<^verbatim>\<open>int\<close> strips the ASCII blanks and the
  Unicode white space, which below 256 is U+0085 and U+00A0.\<close>

definition is_space :: "char \<Rightarrow> bool" where
  "is_space c =
     (c \<in> set [CHR '' '', CHR 0x09, CHR 0x0A, CHR 0x0B, CHR 0x0C, CHR 0x0D, CHR 0x85, CHR 0xA0])"

text \<open>The value of a digit in base 16, as CPython's digit table gives it.\<close>

definition digit_value :: "char \<Rightarrow> nat option" where
  "digit_value c =
     (let n = of_char c :: nat in
      if 48 \<le> n \<and> n \<le> 57 then Some (n - 48)
      else if 97 \<le> n \<and> n \<le> 102 then Some (n - 87)
      else if 65 \<le> n \<and> n \<le> 70 then Some (n - 55)
      else None)"

definition is_hex_digit :: "char \<Rightarrow> bool" where
  "is_hex_digit c = (digit_value c \<noteq> None)"

fun strip_sign :: "string \<Rightarrow> bool \<times> string" where
  "strip_sign [] = (False, [])"
| "strip_sign (c # r) =
     (if c = CHR ''+'' then (False, r)
      else if c = CHR ''-'' then (True, r)
      else (False, c # r))"

fun strip_0x :: "string \<Rightarrow> string" where
  "strip_0x (z # x # r) =
     (if z = CHR ''0'' \<and> (x = CHR ''x'' \<or> x = CHR ''X'')
      then (case r of [] \<Rightarrow> [] | u # r' \<Rightarrow> if u = CHR ''_'' then r' else u # r')
      else z # x # r)"
| "strip_0x s = s"

fun bad_underscores :: "string \<Rightarrow> bool" where
  "bad_underscores [] = False"
| "bad_underscores [c] = (c = CHR ''_'')"
| "bad_underscores (c # d # r) =
     ((c = CHR ''_'' \<and> d = CHR ''_'') \<or> bad_underscores (d # r))"

definition digits_value :: "string \<Rightarrow> nat" where
  "digits_value ds = foldl (\<lambda>acc c. 16 * acc + the (digit_value c)) 0 ds"

text \<open>
  \<^verbatim>\<open>int(s, 16)\<close>: surrounding white space, an optional sign, an optional \<^verbatim>\<open>0x\<close>
  prefix, then hexadecimal digits with single underscores between them.  Anything else
  raises ValueError.
\<close>

definition py_int16 :: "string \<Rightarrow> py_error + int" where
  "py_int16 s =
     (let s1 = dropWhile is_space s;
          (neg, s2) = strip_sign s1;
          s3 = strip_0x s2;
          body = takeWhile (\<lambda>c. is_hex_digit c \<or> c = CHR ''_'') s3;
          rest = dropWhile (\<lambda>c. is_hex_digit c \<or> c = CHR ''_'') s3
      in if body = [] \<or> hd body = CHR ''_'' \<or> bad_underscores body
            \<or> dropWhile is_space rest \<noteq> []
         then Inl ValueError_invalid_literal
         else let v = int (digits_value (filter (\<lambda>c. c \<noteq> CHR ''_'') body))
              in Inr (if neg then - v else v))"

section \<open>Colour utilities\<close>

text \<open>\<^verbatim>\<open>hex_color[i:i+2]\<close>: slicing never raises, it returns what is there.\<close>

definition slice2 :: "string \<Rightarrow> nat \<Rightarrow> string" where
  "slice2 s i = take 2 (drop i s)"

definition hex_to_rgb :: "string \<Rightarrow> py_error + color" where
  "hex_to_rgb hex_color =
     (let h = dropWhile (\<lambda>c. c = CHR ''#'') hex_color in
      case py_int16 (slice2 h 0) of Inl e \<Rightarrow> Inl e | Inr r \<Rightarrow>
      (case py_int16 (slice2 h 2) of Inl e \<Rightarrow> Inl e | Inr g \<Rightarrow>
      (case py_int16 (slice2 h 4) of Inl e \<Rightarrow> Inl e | Inr b \<Rightarrow> Inr (r, g, b))))"

definition hex_char :: "nat \<Rightarrow> char" where
  "hex_char d = (if d < 10 then char_of (48 + d) else char_of (87 + d))"

function to_hex :: "nat \<Rightarrow> string" where
  "to_hex n = (if n < 16 then [hex_char n] else to_hex (n div 16) @ [hex_char (n mod 16)])"
  by pat_completeness auto
termination
  by (relation "measure id") auto

declare to_hex.simps [simp del]

text \<open>The format \<^verbatim>\<open>{:02x}\<close>: lower-case digits, zero-padded to width two, the sign
  counted in the width.\<close>

definition fmt_02x :: "int \<Rightarrow> string" where
  "fmt_02x n =
     (if 0 \<le> n
      then (let ds = to_hex (nat n) in replicate (2 - length ds) CHR ''0'' @ ds)
      else CHR ''-'' # to_hex (nat (- n)))"

definition rgb_to_hex :: "color \<Rightarrow> string" where
  "rgb_to_hex rgb = (case rgb of (r, g, b) \<Rightarrow> CHR ''#'' # fmt_02x r @ fmt_02x g @ fmt_02x b)"

text \<open>\<^verbatim>\<open>np.sqrt(np.sum((a - b) ** 2))\<close>: the square root of an integer.  The rounding of
  the root to a double keeps the order of the roots of different sums of squares of
  channel differences, so the exact root is compared.\<close>

definition calculate_color_distance :: "color \<Rightarrow> color \<Rightarrow> real" where
  "calculate_color_distance color1 color2 =
     (case (color1, color2) of ((r1, g1, b1), (r2, g2, b2)) \<Rightarrow>
        sqrt (of_int ((r1 - r2)\<^sup>2 + (g1 - g2)\<^sup>2 + (b1 - b2)\<^sup>2)))"

text \<open>\<^verbatim>\<open>0.299 * color[0] + 0.587 * color[1] + 0.114 * color[2]\<close> in doubles: each
  channel is converted, each product and each sum, from left to right, is rounded.\<close>

definition calculate_brightness :: "color \<Rightarrow> real" where
  "calculate_brightness c =
     (case c of (r, g, b) \<Rightarrow>
        fl (fl (fl (fl (299 / 1000) * fl (of_int r)) + fl (fl (587 / 1000) * fl (of_int g)))
            + fl (fl (114 / 1000) * fl (of_int b))))"

text \<open>\<^verbatim>\<open>max(0, int(c * factor))\<close> for one channel, and the tuple of the three.  The
  channel and the factor are doubles and so is their product.\<close>

definition darken_channel :: "int \<Rightarrow> real \<Rightarrow> int" where
  "darken_channel c factor = max 0 (py_int (fl (fl (of_int c) * fl factor)))"

definition darken_color :: "color \<Rightarrow> real \<Rightarrow> color" where
  "darken_color c factor =
     (case c of (r, g, b) \<Rightarrow>
        (darken_channel r factor, darken_channel g factor, darken_channel b factor))"


section \<open>Colour extractor\<close>

text \<open>
  An OpenCV image is a grid of rows of BGR pixels with \<^verbatim>\<open>uint8\<close> channels; a mask
  is a grid of \<^verbatim>\<open>uint8\<close> values.  Grids are lists of rows of equal length.
\<close>

type_synonym u8 = "8 word"
type_synonym pixel = "u8 \<times> u8 \<times> u8"
type_synonym image = "pixel list list"
type_synonym mask = "u8 list list"

definition same_shape :: "'a list list \<Rightarrow> 'b list list \<Rightarrow> bool" where
  "same_shape a b = (length a = length b \<and> list_all2 (\<lambda>r s. length r = length s) a b)"

definition zip_grid :: "('a \<Rightarrow> 'b \<Rightarrow> 'c) \<Rightarrow> 'a list list \<Rightarrow> 'b list list \<Rightarrow> 'c list list" where
  "zip_grid f a b = map2 (\<lambda>r s. map2 f r s) a b"

text \<open>The mask is a two-dimensional \<^verbatim>\<open>uint8\<close> array, as the mask builder returns it, so
  the conversions for three-dimensional and non-\<^verbatim>\<open>uint8\<close> masks are not taken.  What remains
  is \<^verbatim>\<open>if m.max() == 1: m = m * 255\<close>; the reduction raises on an array without
  elements, and the product is taken in \<^verbatim>\<open>uint8\<close>.\<close>

definition normalise_mask :: "mask \<Rightarrow> py_error + mask" where
  "normalise_mask m =
     (if concat m = [] then Inl ValueError_zero_size
      else if Max (set (concat m)) = 1 then Inr (map (map (\<lambda>v. v * 255)) m)
      else Inr m)"

text \<open>\<^verbatim>\<open>cv2.bitwise_and(frame, frame, mask=m)\<close>: the pixel where the mask is nonzero,
  zero elsewhere.\<close>

definition bitwise_and_masked :: "image \<Rightarrow> mask \<Rightarrow> py_error + image" where
  "bitwise_and_masked frame m =
     (if same_shape frame m
      then Inr (zip_grid (\<lambda>p v. case p of (b, g, r) \<Rightarrow>
                  if v \<noteq> 0 then (b AND b, g AND g, r AND r) else (0, 0, 0)) frame m)
      else Inl Shape_mismatch)"

text \<open>\<^verbatim>\<open>masked[np.where((masked > [0, 0, 0]).all(axis=2))]\<close>: the pixels, in row-major
  order, all of whose channels are greater than zero.\<close>

definition non_black_pixels :: "image \<Rightarrow> pixel list" where
  "non_black_pixels masked =
     filter (\<lambda>p. case p of (b, g, r) \<Rightarrow> b > 0 \<and> g > 0 \<and> r > 0) (concat masked)"

text \<open>\<^verbatim>\<open>np.mean(pixels, axis=0)\<close> followed by \<^verbatim>\<open>int(...)\<close> on one channel: the sum
  of the channel over the selected pixels, divided in doubles by their number, truncated.\<close>

definition mean_channel :: "(pixel \<Rightarrow> u8) \<Rightarrow> pixel list \<Rightarrow> int" where
  "mean_channel ch pixels =
     py_int (fl (fl (real (sum_list (map (\<lambda>p. unat (ch p)) pixels))) / fl (real (length pixels))))"

definition mean_region_color :: "color \<Rightarrow> image \<Rightarrow> mask \<Rightarrow> py_error + color" where
  "mean_region_color fallback frame region_mask =
     (case normalise_mask region_mask of Inl e \<Rightarrow> Inl e | Inr m \<Rightarrow>
      (case bitwise_and_masked frame m of Inl e \<Rightarrow> Inl e | Inr masked \<Rightarrow>
        (let pixels = non_black_pixels masked in
         if length pixels = 0 then Inr fallback
         else Inr (mean_channel (\<lambda>(b, g, r). r) pixels,
                   mean_channel (\<lambda>(b, g, r). g) pixels,
                   mean_channel (\<lambda>(b, g, r). b) pixels))))"

definition compute_mean_skin_color :: "image \<Rightarrow> mask \<Rightarrow> py_error + color" where
  "compute_mean_skin_color frame face_mask = mean_region_color (200, 180, 160) frame face_mask"

definition compute_mean_lip_color :: "image \<Rightarrow> mask \<Rightarrow> py_error + color" where
  "compute_mean_lip_color frame lips_mask = mean_region_color (150, 50, 70) frame lips_mask"

section \<open>Palette matcher\<close>

record swatch =
  hex :: string

record color_scheme =
  foundation_colors :: "swatch list"
  eyeshadow_colors :: "swatch list"
  lipstick_colors :: "swatch list"

text \<open>Python's \<^verbatim>\<open>min(xs, key=f)\<close>: the first element with the least key; an empty
  sequence raises, and so does a key that raises.\<close>

fun min_scan :: "('a \<Rightarrow> py_error + real) \<Rightarrow> 'a \<Rightarrow> real \<Rightarrow> 'a list \<Rightarrow> py_error + 'a" where
  "min_scan key best kb [] = Inr best"
| "min_scan key best kb (x # xs) =
     (case key x of Inl e \<Rightarrow> Inl e
      | Inr k \<Rightarrow> if k < kb then min_scan key x k xs else min_scan key best kb xs)"

definition py_min :: "('a \<Rightarrow> py_error + real) \<Rightarrow> 'a list \<Rightarrow> py_error + 'a" where
  "py_min key xs =
     (case xs of [] \<Rightarrow> Inl ValueError_min_empty
      | x # r \<Rightarrow> (case key x of Inl e \<Rightarrow> Inl e | Inr k \<Rightarrow> min_scan key x k r))"

definition distance_key :: "color \<Rightarrow> swatch \<Rightarrow> py_error + real" where
  "distance_key target f =
     (case hex_to_rgb (hex f) of Inl e \<Rightarrow> Inl e
      | Inr c \<Rightarrow> Inr (calculate_color_distance c target))"

text \<open>The \<^verbatim>\<open>while\<close> loop of the matcher.  It has no iteration bound in the source, so
  it is a partial function: \<open>None\<close> is a run that never leaves the loop.\<close>

partial_function (option) darken_loop :: "color \<Rightarrow> real \<Rightarrow> color option" where
  "darken_loop lipstick_color foundation_brightness =
     (if calculate_brightness lipstick_color \<ge> foundation_brightness
      then darken_loop (darken_color lipstick_color (9 / 10)) foundation_brightness
      else Some lipstick_color)"

definition recommend_complementary_colors ::
  "color \<Rightarrow> color \<Rightarrow> color_scheme \<Rightarrow> (py_error + color \<times> color \<times> color) option" where
  "recommend_complementary_colors average_skin_color average_lip_color scheme =
     (case py_min (distance_key average_skin_color) (foundation_colors scheme) of
        Inl e \<Rightarrow> Some (Inl e) | Inr closest_foundation \<Rightarrow>
     (case py_min (distance_key average_skin_color) (eyeshadow_colors scheme) of
        Inl e \<Rightarrow> Some (Inl e) | Inr closest_eyeshadow \<Rightarrow>
     (case hex_to_rgb (hex closest_foundation) of
        Inl e \<Rightarrow> Some (Inl e) | Inr foundation \<Rightarrow>
     (case py_min (distance_key average_lip_color) (lipstick_colors scheme) of
        Inl e \<Rightarrow> Some (Inl e) | Inr closest_lipstick \<Rightarrow>
     (case hex_to_rgb (hex closest_lipstick) of
        Inl e \<Rightarrow> Some (Inl e) | Inr lipstick_color \<Rightarrow>
     (case darken_loop lipstick_color (calculate_brightness foundation) of
        None \<Rightarrow> None | Some lipstick \<Rightarrow>
     (case hex_to_rgb (hex closest_eyeshadow) of
        Inl e \<Rightarrow> Some (Inl e) | Inr eyeshadow \<Rightarrow>
          Some (Inr (foundation, eyeshadow, lipstick)))))))))"

section \<open>Compositor\<close>

type_synonym pixel4 = "u8 \<times> u8 \<times> u8 \<times> u8"

text \<open>OpenCV's \<^verbatim>\<open>cvRound\<close> rounds to the nearest integer, a tie to the even one;
  \<^verbatim>\<open>saturate_cast<uchar>\<close> clamps the result to 0..255.\<close>

definition cv_round :: "real \<Rightarrow> int" where
  "cv_round x = round_half_even x"

definition saturate_u8 :: "real \<Rightarrow> u8" where
  "saturate_u8 x = word_of_int (max 0 (min 255 (cv_round x)))"

text \<open>\<^verbatim>\<open>cv2.addWeighted(src1, alpha, src2, beta, gamma)\<close> on one channel of an 8-bit
  image: OpenCV converts the three weights to single precision and evaluates
  \<^verbatim>\<open>src1 * alpha + src2 * beta + gamma\<close> in single precision.  Each operation is rounded
  here; a build that fuses a multiplication with the addition can differ in the last bit.\<close>

definition add_weighted_u8 :: "u8 \<Rightarrow> real \<Rightarrow> u8 \<Rightarrow> real \<Rightarrow> real \<Rightarrow> u8" where
  "add_weighted_u8 a alpha b beta gamma =
     saturate_u8
       (fl32 (fl32 (fl32 (real (unat a) * fl32 alpha) + fl32 (real (unat b) * fl32 beta))
              + fl32 gamma))"

definition add_weighted :: "pixel4 \<Rightarrow> real \<Rightarrow> pixel4 \<Rightarrow> real \<Rightarrow> real \<Rightarrow> pixel4" where
  "add_weighted p alpha q beta gamma =
     (case (p, q) of ((p0, p1, p2, p3), (q0, q1, q2, q3)) \<Rightarrow>
        (add_weighted_u8 p0 alpha q0 beta gamma,
         add_weighted_u8 p1 alpha q1 beta gamma,
         add_weighted_u8 p2 alpha q2 beta gamma,
         add_weighted_u8 p3 alpha q3 beta gamma))"

text \<open>\<^verbatim>\<open>cv2.COLOR_BGR2BGRA\<close> appends an opaque alpha channel; \<^verbatim>\<open>cv2.COLOR_BGRA2BGR\<close>
  drops the alpha channel.\<close>

definition bgr2bgra :: "pixel \<Rightarrow> pixel4" where
  "bgr2bgra p = (case p of (b, g, r) \<Rightarrow> (b, g, r, 255))"

definition bgra2bgr :: "pixel4 \<Rightarrow> pixel" where
  "bgra2bgr p = (case p of (b, g, r, a) \<Rightarrow> (b, g, r))"

text \<open>\<^verbatim>\<open>makeup_color + (int(opacity * 255),)\<close>, stored into a \<^verbatim>\<open>uint8\<close> array: the
  three channels of the colour are taken in the order given, then the alpha.  Numbers
  outside 0..255 are reduced modulo 256 here, as older NumPy versions do.\<close>

definition makeup_bgra :: "color \<Rightarrow> real \<Rightarrow> pixel4" where
  "makeup_bgra makeup_color opacity =
     (case makeup_color of (c0, c1, c2) \<Rightarrow>
        (word_of_int c0, word_of_int c1, word_of_int c2, word_of_int (py_int (fl (opacity * 255)))))"

text \<open>\<^verbatim>\<open>makeup_layer = np.zeros(...); makeup_layer[mask != 0] = makeup_bgra\<close>.\<close>

definition makeup_layer :: "mask \<Rightarrow> color \<Rightarrow> real \<Rightarrow> pixel4 list list" where
  "makeup_layer m makeup_color opacity =
     map (map (\<lambda>v. if v \<noteq> 0 then makeup_bgra makeup_color opacity else (0, 0, 0, 0))) m"

text \<open>The opacity is a double: the one nearest to the number given.  The boolean index
  \<^verbatim>\<open>mask != 0\<close> needs a mask of the image's height and width, and \<^verbatim>\<open>cv2.cvtColor\<close>
  refuses an image without elements.\<close>

definition apply_makeup_directly :: "image \<Rightarrow> mask \<Rightarrow> color \<Rightarrow> real \<Rightarrow> py_error + image" where
  "apply_makeup_directly img m makeup_color opacity =
     (let op = fl opacity in
      if \<not> same_shape img m then Inl Shape_mismatch
      else if concat img = [] then Inl Cv2_error_empty
      else Inr (zip_grid
                 (\<lambda>p l. bgra2bgr (add_weighted (bgr2bgra p) (fl (1 - op)) l op 0))
                 img (makeup_layer m makeup_color op)))"

section \<open>Mask builder\<close>

definition face_points :: "(string \<times> nat list) list" where
  "face_points =
   [(''BLUSH_LEFT'', [50]),
    (''BLUSH_RIGHT'', [280]),
    (''LEFT_EYE'', [33, 246, 161, 160, 159, 158, 157, 173, 133, 155, 154, 153, 145, 144, 163, 7, 33]),
    (''RIGHT_EYE'', [362, 298, 384, 385, 386, 387, 388, 466, 263, 249, 390, 373, 374, 380, 381, 382, 362]),
    (''EYELINER_LEFT'', [243, 112, 26, 22, 23, 24, 110, 25, 226, 130, 33, 7, 163, 144, 145, 153, 154, 155, 133, 243]),
    (''EYELINER_RIGHT'', [463, 362, 382, 381, 380, 374, 373, 390, 249, 263, 359, 446, 255, 339, 254, 253, 252, 256, 341, 463]),
    (''EYESHADOW_LEFT'', [226, 247, 30, 29, 27, 28, 56, 190, 243, 173, 157, 158, 159, 160, 161, 246, 33, 130, 226]),
    (''EYESHADOW_RIGHT'', [463, 414, 286, 258, 257, 259, 260, 467, 446, 359, 263, 466, 388, 387, 386, 385, 384, 398, 362, 463]),
    (''FACE'', [152, 148, 176, 149, 150, 136, 172, 58, 132, 93, 234, 127, 162, 21, 54, 103, 67, 109, 10, 338, 297, 332, 284, 251, 389, 454, 323, 401, 361, 435, 288, 397, 365, 379, 378, 400, 377, 152]),
    (''LIP_UPPER'', [61, 185, 40, 39, 37, 0, 267, 269, 270, 409, 291, 308, 415, 310, 312, 13, 82, 81, 80, 191, 78]),
    (''LIP_LOWER'', [61, 146, 91, 181, 84, 17, 314, 405, 321, 375, 291, 308, 324, 402, 317, 14, 87, 178, 88, 95, 78, 61]),
    (''EYEBROW_LEFT'', [55, 107, 66, 105, 63, 70, 46, 53, 52, 65, 55]),
    (''EYEBROW_RIGHT'', [285, 336, 296, 334, 293, 300, 276, 283, 295, 285])]"

definition features_to_remove :: "string list" where
  "features_to_remove = [''LEFT_EYE'', ''RIGHT_EYE'']"

type_synonym point = "int \<times> int"
type_synonym landmarks = "nat \<rightharpoonup> point"

text \<open>
  \<^verbatim>\<open>cv2.fillPoly(mask, [np.array(points)], 255)\<close> writes the value into every element
  the polygon covers and leaves the others.  Which elements a polygon covers is OpenCV's
  rasteriser, not code of this module: it is the parameter \<open>covers\<close>, a predicate on
  the points, the row and the column.
\<close>

type_synonym rasteriser = "point list \<Rightarrow> nat \<Rightarrow> nat \<Rightarrow> bool"

definition fillPoly :: "rasteriser \<Rightarrow> mask \<Rightarrow> point list \<Rightarrow> u8 \<Rightarrow> mask" where
  "fillPoly covers m pts v =
     map (\<lambda>(y, row). map (\<lambda>(x, old). if covers pts y x then v else old) (enumerate 0 row))
         (enumerate 0 m)"

text \<open>\<^verbatim>\<open>np.zeros(mask.shape[:2], dtype=np.uint8)\<close>.\<close>

definition shape2 :: "'a list list \<Rightarrow> nat \<times> nat" where
  "shape2 t = (length t, case t of [] \<Rightarrow> 0 | r # _ \<Rightarrow> length r)"

definition zeros :: "nat \<times> nat \<Rightarrow> mask" where
  "zeros s = (case s of (h, w) \<Rightarrow> replicate h (replicate w 0))"

text \<open>\<^verbatim>\<open>[idx_to_coordinates[idx] for idx in feature_points if idx in idx_to_coordinates]\<close>.\<close>

definition resolve :: "landmarks \<Rightarrow> nat list \<Rightarrow> point list" where
  "resolve idx_to_coordinates idxs =
     map (\<lambda>idx. the (idx_to_coordinates idx)) (filter (\<lambda>idx. idx_to_coordinates idx \<noteq> None) idxs)"

definition face_step :: "rasteriser \<Rightarrow> landmarks \<Rightarrow> mask \<Rightarrow> string \<times> nat list \<Rightarrow> mask" where
  "face_step covers idx_to_coordinates face_mask entry =
     (case entry of (feature, feature_points) \<Rightarrow>
        if feature \<notin> set features_to_remove
        then (let points = resolve idx_to_coordinates feature_points in
              if points \<noteq> [] then fillPoly covers face_mask points 255 else face_mask)
        else face_mask)"

definition add_reverse_mask_and_lips ::
  "rasteriser \<Rightarrow> 'a list list \<Rightarrow> landmarks \<Rightarrow> nat list \<Rightarrow> nat list \<Rightarrow> mask \<times> mask" where
  "add_reverse_mask_and_lips covers template idx_to_coordinates face_connections lip_connections =
     (let face_mask = foldl (face_step covers idx_to_coordinates) (zeros (shape2 template)) face_points;
          lips_mask = zeros (shape2 template);
          lips_points = resolve idx_to_coordinates lip_connections;
          lips_mask = (if lips_points \<noteq> [] then fillPoly covers lips_mask lips_points 255 else lips_mask)
      in (face_mask, lips_mask))"

section \<open>Notions used in the statements and proofs\<close>

text \<open>\<open>darken_n n c\<close> is \<^verbatim>\<open>darken_color\<close> with its factor 0.9 applied \<open>n\<close> times.\<close>

definition darken_n :: "nat \<Rightarrow> color \<Rightarrow> color" where
  "darken_n n c = ((\<lambda>c. darken_color c (9 / 10)) ^^ n) c"

text \<open>The brightness formula \<open>0.299 R + 0.587 G + 0.114 B\<close> in exact arithmetic, as the
  specification writes it.\<close>

definition exact_brightness :: "color \<Rightarrow> real" where
  "exact_brightness c =
     (case c of (r, g, b) \<Rightarrow> 299 / 1000 * of_int r + 587 / 1000 * of_int g + 114 / 1000 * of_int b)"

definition nonneg :: "color \<Rightarrow> bool" where
  "nonneg c = (case c of (r, g, b) \<Rightarrow> 0 \<le> r \<and> 0 \<le> g \<and> 0 \<le> b)"

text \<open>No channel above 255, as for every colour read from a palette and every darkened one.\<close>

definition in_range :: "color \<Rightarrow> bool" where
  "in_range c = (case c of (r, g, b) \<Rightarrow> r \<le> 255 \<and> g \<le> 255 \<and> b \<le> 255)"

text \<open>The sum of the positive parts of the channels: the measure that the loop decreases.\<close>

definition weight :: "color \<Rightarrow> nat" where
  "weight c = (case c of (r, g, b) \<Rightarrow> nat r + nat g + nat b)"

text \<open>Python's \<^verbatim>\<open>str.lower\<close> on ASCII text, for comparing strings up to letter case.\<close>

definition lower_char :: "char \<Rightarrow> char" where
  "lower_char c = (let n = of_char c :: nat in if 65 \<le> n \<and> n \<le> 90 then char_of (n + 32) else c)"

definition lower :: "string \<Rightarrow> string" where
  "lower s = map lower_char s"

text \<open>A well-formed colour string: six hexadecimal digits, with or without one \<^verbatim>\<open>#\<close> in front.\<close>

definition six_hex_digits :: "string \<Rightarrow> bool" where
  "six_hex_digits ds = (length ds = 6 \<and> list_all is_hex_digit ds)"

text \<open>A mask of shape \<open>s\<close> all of whose elements are 0 or 255.\<close>

definition binary_mask :: "nat \<times> nat \<Rightarrow> mask \<Rightarrow> bool" where
  "binary_mask s m =
     (length m = fst s \<and>
      list_all (\<lambda>row. length row = snd s \<and> list_all (\<lambda>v. v = 0 \<or> v = 255) row) m)"

definition well_formed_hex :: "string \<Rightarrow> bool" where
  "well_formed_hex s =
     (six_hex_digits s \<or> (case s of [] \<Rightarrow> False | c # ds \<Rightarrow> c = CHR ''#'' \<and> six_hex_digits ds))"

definition well_formed_swatches :: "swatch list \<Rightarrow> bool" where
  "well_formed_swatches xs = list_all (\<lambda>f. well_formed_hex (hex f)) xs"

definition well_formed_scheme :: "color_scheme \<Rightarrow> bool" where
  "well_formed_scheme scheme =
     (well_formed_swatches (foundation_colors scheme) \<and>
      well_formed_swatches (eyeshadow_colors scheme) \<and>
      well_formed_swatches (lipstick_colors scheme))"

section \<open>Rounding\<close>

lemma expo_bounds:
  "0 < x \<Longrightarrow> 2 powi expo x \<le> x \<and> x < 2 powi (expo x + 1)"
proof (induction x rule: expo.induct)
  case (1 x)
  show ?case
  proof (cases "2 \<le> x")
    case True
    with 1 have e: "expo x = expo (x / 2) + 1" by (subst expo.simps) simp
    from 1 True have "2 powi expo (x / 2) \<le> x / 2 \<and> x / 2 < 2 powi (expo (x / 2) + 1)" by simp
    then show ?thesis unfolding e by (simp add: power_int_add field_simps)
  next
    case False
    show ?thesis
    proof (cases "x < 1")
      case True
      with 1 False have e: "expo x = expo (x * 2) - 1" by (subst expo.simps) simp
      from 1 True False have "2 powi expo (x * 2) \<le> x * 2 \<and> x * 2 < 2 powi (expo (x * 2) + 1)" by simp
      then show ?thesis unfolding e by (simp add: power_int_add power_int_diff field_simps)
    next
      case f: False
      with 1 False have "expo x = 0" by (subst expo.simps) simp
      with f False show ?thesis by simp
    qed
  qed
qed

lemma powi2_less_imp:
  assumes "(2::real) powi a < 2 powi b"
  shows "a < b"
proof (rule ccontr)
  assume "\<not> a < b"
  then have "(2::real) powi b \<le> 2 powi a" by (intro power_int_increasing) simp_all
  with assms show False by simp
qed

lemma expo_unique:
  assumes "2 powi e \<le> x" "x < 2 powi (e + 1)"
  shows "expo x = e"
proof -
  have x: "0 < x" using assms(1) by (rule less_le_trans [rotated]) simp
  from expo_bounds [OF x] have b: "2 powi expo x \<le> x" "x < 2 powi (expo x + 1)" by simp_all
  have "(2::real) powi e < 2 powi (expo x + 1)" using assms(1) b(2) by simp
  then have 1: "e < expo x + 1" by (rule powi2_less_imp)
  have "(2::real) powi expo x < 2 powi (e + 1)" using assms(2) b(1) by simp
  then have 2: "expo x < e + 1" by (rule powi2_less_imp)
  from 1 2 show ?thesis by simp
qed

lemma round_half_even_of_int: "round_half_even (of_int n) = n"
  by (simp add: round_half_even_def)

lemma round_half_even_bounds:
  "\<lfloor>x\<rfloor> \<le> round_half_even x" "round_half_even x \<le> \<lfloor>x\<rfloor> + 1"
  by (simp_all add: round_half_even_def Let_def)

lemma round_half_even_mono:
  assumes "x \<le> y"
  shows "round_half_even x \<le> round_half_even y"
proof (cases "\<lfloor>x\<rfloor> = \<lfloor>y\<rfloor>")
  case True
  with assms have "x - of_int \<lfloor>x\<rfloor> \<le> y - of_int \<lfloor>y\<rfloor>" by simp
  with True show ?thesis
    by (auto simp: round_half_even_def Let_def)
next
  case False
  with assms have "\<lfloor>x\<rfloor> < \<lfloor>y\<rfloor>" using floor_mono [of x y] by simp
  with round_half_even_bounds(2) [of x] round_half_even_bounds(1) [of y] show ?thesis by simp
qed

lemma round_to_0: "round_to p 0 = 0"
  by (simp add: round_to_def)

lemma round_to_nonneg:
  assumes "0 \<le> x"
  shows "0 \<le> round_to p x"
proof (cases "x = 0")
  case True
  then show ?thesis by (simp add: round_to_0)
next
  case False
  have "round_half_even 0 \<le> round_half_even (x / 2 powi (expo \<bar>x\<bar> - (int p - 1)))"
    using assms by (intro round_half_even_mono) simp
  then have "0 \<le> round_half_even (x / 2 powi (expo \<bar>x\<bar> - (int p - 1)))"
    using round_half_even_of_int [of 0] by simp
  with False show ?thesis by (simp add: round_to_def Let_def)
qed

lemma round_to_nonpos:
  assumes "x \<le> 0"
  shows "round_to p x \<le> 0"
proof (cases "x = 0")
  case True
  then show ?thesis by (simp add: round_to_0)
next
  case False
  have "round_half_even (x / 2 powi (expo \<bar>x\<bar> - (int p - 1))) \<le> round_half_even 0"
    using assms by (intro round_half_even_mono) (simp add: divide_nonpos_pos)
  then have "round_half_even (x / 2 powi (expo \<bar>x\<bar> - (int p - 1))) \<le> 0"
    using round_half_even_of_int [of 0] by simp
  with False show ?thesis by (simp add: round_to_def Let_def mult_le_0_iff)
qed

lemma round_to_pos:
  assumes "0 < x"
  shows "round_to p x = of_int (round_half_even (x / 2 powi (expo x - (int p - 1)))) * 2 powi (expo x - (int p - 1))"
  using assms by (simp add: round_to_def Let_def)

lemma round_to_mono_pos:
  assumes "0 < x" "x \<le> y" "0 < p"
  shows "round_to p x \<le> round_to p y"
proof -
  have y: "0 < y" using assms by simp
  define ex where "ex = expo x"
  define ey where "ey = expo y"
  define q where "q = int p - 1"
  from expo_bounds [OF assms(1)] have bx: "2 powi ex \<le> x" "x < 2 powi (ex + 1)" by (simp_all add: ex_def)
  from expo_bounds [OF y] have "by": "2 powi ey \<le> y" "y < 2 powi (ey + 1)" by (simp_all add: ey_def)
  have rx: "round_to p x = of_int (round_half_even (x / 2 powi (ex - q))) * 2 powi (ex - q)"
    unfolding ex_def q_def by (rule round_to_pos [OF assms(1)])
  have ry: "round_to p y = of_int (round_half_even (y / 2 powi (ey - q))) * 2 powi (ey - q)"
    unfolding ey_def q_def by (rule round_to_pos [OF y])
  have "(2::real) powi ex < 2 powi (ey + 1)" using bx(1) assms(2) "by"(2) by simp
  then have "ex < ey + 1" by (rule powi2_less_imp)
  then consider "ex = ey" | "ex + 1 \<le> ey" by linarith
  then show ?thesis
  proof cases
    case 1
    have "x / 2 powi (ey - q) \<le> y / 2 powi (ey - q)"
      using assms(2) by (simp add: divide_right_mono)
    then have "round_half_even (x / 2 powi (ey - q)) \<le> round_half_even (y / 2 powi (ey - q))"
      by (rule round_half_even_mono)
    then show ?thesis unfolding rx ry 1 by (simp add: mult_right_mono)
  next
    case 2
    have q1: "q + 1 = int p" by (simp add: q_def)
    have "x / 2 powi (ex - q) \<le> 2 powi (ex + 1) / 2 powi (ex - q)"
      using bx(2) by (simp add: divide_right_mono)
    also have "\<dots> = 2 powi (q + 1)" by (simp add: power_int_diff [symmetric] algebra_simps)
    also have "\<dots> = of_int (2 ^ p)" unfolding q1 by simp
    finally have "round_half_even (x / 2 powi (ex - q)) \<le> round_half_even (of_int (2 ^ p))"
      by (rule round_half_even_mono)
    then have "real_of_int (round_half_even (x / 2 powi (ex - q))) \<le> 2 powi (q + 1)"
      unfolding round_half_even_of_int q1 using of_int_le_iff [where ?'a = real] by fastforce
    then have "round_to p x \<le> 2 powi (q + 1) * 2 powi (ex - q)"
      unfolding rx by (simp add: mult_right_mono)
    also have "\<dots> = 2 powi (ex + 1)" by (simp add: power_int_add [symmetric] algebra_simps)
    also have "\<dots> \<le> 2 powi ey" using 2 by (intro power_int_increasing) simp_all
    finally have ux: "round_to p x \<le> 2 powi ey" .
    have q0: "0 \<le> q" using assms(3) by (simp add: q_def)
    then have qn: "(2::real) powi q = of_int (2 ^ nat q)" by (simp add: power_int_nonneg_exp)
    have "2 powi ey / 2 powi (ey - q) \<le> y / 2 powi (ey - q)"
      using "by"(1) by (simp add: divide_right_mono)
    moreover have "2 powi ey / 2 powi (ey - q) = (2::real) powi q"
      by (simp add: power_int_diff [symmetric])
    ultimately have "of_int (2 ^ nat q) \<le> y / 2 powi (ey - q)" unfolding qn by simp
    then have "round_half_even (of_int (2 ^ nat q)) \<le> round_half_even (y / 2 powi (ey - q))"
      by (rule round_half_even_mono)
    then have "(2::real) powi q \<le> real_of_int (round_half_even (y / 2 powi (ey - q)))"
      unfolding round_half_even_of_int qn using of_int_le_iff [where ?'a = real] by fastforce
    then have "2 powi q * 2 powi (ey - q) \<le> round_to p y"
      unfolding ry by (simp add: mult_right_mono)
    moreover have "2 powi q * 2 powi (ey - q) = (2::real) powi ey"
      by (simp add: power_int_add [symmetric])
    ultimately have "2 powi ey \<le> round_to p y" by simp
    with ux show ?thesis by simp
  qed
qed

lemma round_to_mono:
  assumes "0 \<le> x" "x \<le> y" "0 < p"
  shows "round_to p x \<le> round_to p y"
proof (cases "x = 0")
  case True
  with assms round_to_nonneg [of y p] show ?thesis by (simp add: round_to_0)
next
  case False
  with assms have "0 < x" by simp
  then show ?thesis using assms(2,3) by (rule round_to_mono_pos)
qed

lemma round_to_dyadic:
  assumes "\<bar>m\<bar> < 2 ^ p"
  shows "round_to p (of_int m * 2 powi i) = of_int m * 2 powi i"
proof (cases "m = 0")
  case True
  then show ?thesis by (simp add: round_to_0)
next
  case False
  define x :: real where "x = of_int m * 2 powi i"
  define q where "q = int p - 1"
  define e where "e = expo \<bar>x\<bar>"
  have x0: "x \<noteq> 0" using False by (simp add: x_def)
  then have "0 < \<bar>x\<bar>" by simp
  from expo_bounds [OF this] have b: "2 powi e \<le> \<bar>x\<bar>" by (simp add: e_def)
  have "\<bar>x\<bar> = of_int \<bar>m\<bar> * 2 powi i" by (simp add: x_def abs_mult)
  also have "\<dots> < of_int (2 ^ p) * 2 powi i"
    using assms by (intro mult_strict_right_mono) (simp_all del: of_int_power)
  also have "\<dots> = 2 powi (int p + i)" by (simp add: power_int_add)
  finally have "(2::real) powi e < 2 powi (int p + i)" using b by simp
  then have "e < int p + i" by (rule powi2_less_imp)
  then have k: "0 \<le> i - (e - q)" by (simp add: q_def)
  have "x / 2 powi (e - q) = of_int m * 2 powi (i - (e - q))"
    by (simp add: x_def power_int_diff)
  also have "\<dots> = of_int (m * 2 ^ nat (i - (e - q)))"
    using k by (simp add: power_int_nonneg_exp)
  finally have "round_half_even (x / 2 powi (e - q)) = m * 2 ^ nat (i - (e - q))"
    by (simp only: round_half_even_of_int)
  then have "round_to p x = of_int (m * 2 ^ nat (i - (e - q))) * 2 powi (e - q)"
    using x0 by (simp add: round_to_def Let_def e_def q_def)
  also have "\<dots> = of_int m * (2 powi (i - (e - q)) * 2 powi (e - q))"
    using k by (simp add: power_int_nonneg_exp)
  also have "\<dots> = of_int m * 2 powi i"
    by (simp add: power_int_add [symmetric])
  finally show ?thesis by (simp add: x_def)
qed

lemma round_to_of_int: "\<bar>m\<bar> < 2 ^ p \<Longrightarrow> round_to p (of_int m) = of_int m"
  using round_to_dyadic [of m p 0] by simp

lemma fl_0: "fl 0 = 0"
  by (simp add: fl_def round_to_0)

lemma fl_nonneg: "0 \<le> x \<Longrightarrow> 0 \<le> fl x"
  by (simp add: fl_def round_to_nonneg)

lemma fl_nonpos: "x \<le> 0 \<Longrightarrow> fl x \<le> 0"
  by (simp add: fl_def round_to_nonpos)

lemma fl_mono: "0 \<le> x \<Longrightarrow> x \<le> y \<Longrightarrow> fl x \<le> fl y"
  by (simp add: fl_def round_to_mono)

lemma fl_dyadic: "\<bar>m\<bar> < 2 ^ 53 \<Longrightarrow> fl (of_int m * 2 powi i) = of_int m * 2 powi i"
  unfolding fl_def by (rule round_to_dyadic)

lemma fl_of_int: "\<bar>m\<bar> < 2 ^ 53 \<Longrightarrow> fl (of_int m) = of_int m"
  unfolding fl_def by (rule round_to_of_int)

lemma fl32_of_int: "\<bar>m\<bar> < 2 ^ 24 \<Longrightarrow> fl32 (of_int m) = of_int m"
  unfolding fl32_def by (rule round_to_of_int)

text \<open>Rounding a number whose binary exponent is known.\<close>

lemma round_to_eval:
  assumes "2 powi e \<le> \<bar>x\<bar>" "\<bar>x\<bar> < 2 powi (e + 1)"
  shows "round_to p x
           = of_int (round_half_even (x / 2 powi (e - (int p - 1)))) * 2 powi (e - (int p - 1))"
proof -
  have "expo \<bar>x\<bar> = e" using assms by (rule expo_unique)
  moreover have "x \<noteq> 0"
  proof
    assume "x = 0"
    with assms(1) have "(2::real) powi e \<le> 0" by simp
    moreover have "0 < (2::real) powi e" by simp
    ultimately show False by simp
  qed
  ultimately show ?thesis by (simp add: round_to_def Let_def)
qed

lemma fl_val:
  assumes "2 powi e \<le> \<bar>x\<bar>" "\<bar>x\<bar> < 2 powi (e + 1)"
    and "round_half_even (x / 2 powi (e - 52)) = m" and "v = of_int m * 2 powi (e - 52)"
  shows "fl x = v"
  using round_to_eval [OF assms(1,2), of 53] assms(3,4) by (simp add: fl_def)

lemma fl32_val:
  assumes "2 powi e \<le> \<bar>x\<bar>" "\<bar>x\<bar> < 2 powi (e + 1)"
    and "round_half_even (x / 2 powi (e - 23)) = m" and "v = of_int m * 2 powi (e - 23)"
  shows "fl32 x = v"
  using round_to_eval [OF assms(1,2), of 24] assms(3,4) by (simp add: fl32_def)

text \<open>The doubles that the literals of the module denote.\<close>

lemma fl_299: "fl (299 / 1000) = 5386305154335113 / 18014398509481984"
  by (rule fl_val [of "- 2" _ 5386305154335113]) (simp_all add: round_half_even_def Let_def)

lemma fl_587: "fl (587 / 1000) = 2643612981266481 / 4503599627370496"
  by (rule fl_val [of "- 1" _ 5287225962532962]) (simp_all add: round_half_even_def Let_def)

lemma fl_114: "fl (114 / 1000) = 8214565720323785 / 72057594037927936"
  by (rule fl_val [of "- 4" _ 8214565720323785]) (simp_all add: round_half_even_def Let_def)

lemma fl_9_10: "fl (9 / 10) = 8106479329266893 / 2 ^ 53"
  by (rule fl_val [of "- 1" _ 8106479329266893]) (simp_all add: round_half_even_def Let_def)

text \<open>The brightness of a colour from the five roundings it takes.\<close>

lemma brightness_eval:
  assumes "\<bar>r\<bar> < 2 ^ 53" "\<bar>g\<bar> < 2 ^ 53" "\<bar>b\<bar> < 2 ^ 53"
    and "fl (5386305154335113 / 18014398509481984 * real_of_int r) = x1"
    and "fl (2643612981266481 / 4503599627370496 * real_of_int g) = x2"
    and "fl (x1 + x2) = s"
    and "fl (8214565720323785 / 72057594037927936 * real_of_int b) = x3"
    and "fl (s + x3) = v"
  shows "calculate_brightness (r, g, b) = v"
proof -
  have i: "fl (real_of_int r) = real_of_int r" "fl (real_of_int g) = real_of_int g"
    "fl (real_of_int b) = real_of_int b"
    using assms(1-3) by (simp_all add: fl_of_int)
  show ?thesis
    unfolding calculate_brightness_def prod.case fl_299 fl_587 fl_114 i
      assms(4) assms(5) assms(6) assms(7) assms(8) ..
qed

text \<open>Numbers that are floats already.\<close>

lemma fl_numeral: "\<bar>numeral n :: int\<bar> < 2 ^ 53 \<Longrightarrow> fl (numeral n) = numeral n"
  using fl_of_int [of "numeral n"] by simp

lemma fl32_numeral: "\<bar>numeral n :: int\<bar> < 2 ^ 24 \<Longrightarrow> fl32 (numeral n) = numeral n"
  using fl32_of_int [of "numeral n"] by simp

lemma fl_1: "fl 1 = 1"
  using fl_of_int [of 1] by simp

lemma fl32_0: "fl32 0 = 0"
  by (simp add: fl32_def round_to_0)

lemma fl32_1: "fl32 1 = 1"
  using fl32_of_int [of 1] by simp

lemma fl_half: "fl (1 / 2) = 1 / 2"
  using fl_dyadic [of 1 "- 1"] by (simp add: power_int_minus)

lemma fl32_half: "fl32 (1 / 2) = 1 / 2"
  using round_to_dyadic [of 1 24 "- 1"] by (simp add: fl32_def power_int_minus)

lemma fl32_unat: "fl32 (real (unat a)) = real (unat a)" for a :: "8 word"
proof -
  have "uint a < 256" using uint_lt2p [of a] by simp
  then have "\<bar>uint a\<bar> < 2 ^ 24" by simp
  from fl32_of_int [OF this] show ?thesis by simp
qed

lemma fl32_unsigned: "fl32 (unsigned a) = (unsigned a :: real)" for a :: "8 word"
  using fl32_unat [of a] by simp

section \<open>Darkening\<close>

text \<open>On a channel in 0..255 the rounded product truncates to the same integer as the
  exact product with 9/10.\<close>

lemma darken_channel_nonneg_arg:
  assumes "0 \<le> x" "x \<le> 255"
  shows "darken_channel x (9 / 10) = (9 * x) div 10"
proof -
  define k where "k = (9 * x) div 10"
  define p where "p = real_of_int x * fl (9 / 10)"
  have k0: "0 \<le> k" "k \<le> 229" using assms by (simp_all add: k_def)
  have fx: "fl (of_int x) = of_int x"
    using assms by (intro fl_of_int) simp
  have "k * 10 \<le> 9 * x" "9 * x \<le> k * 10 + 9" unfolding k_def by simp_all
  then have k1: "real_of_int k * 10 \<le> 9 * real_of_int x" "9 * real_of_int x \<le> real_of_int k * 10 + 9"
    by (simp_all flip: of_int_le_iff [where ?'a = real])
  have x: "0 \<le> real_of_int x" "real_of_int x \<le> 255" using assms by simp_all
  have p_eq: "p = 9 * real_of_int x / 10 + real_of_int x / (5 * 2 ^ 53)"
    unfolding p_def fl_9_10 by (simp add: field_simps)
  have lo: "real_of_int k \<le> p" unfolding p_eq using k1(1) x by (simp add: field_simps)
  have "real_of_int x / (5 * 2 ^ 53) \<le> 1 / 32" using x by simp
  then have hi: "p \<le> real_of_int k + 15 / 16" unfolding p_eq using k1(2) by (simp add: field_simps)
  have "fl (real_of_int k) \<le> fl p" using k0 lo by (intro fl_mono) simp_all
  moreover have "fl (real_of_int k) = real_of_int k" using k0 by (intro fl_of_int) simp
  ultimately have 1: "real_of_int k \<le> fl p" by simp
  have d: "real_of_int k + 15 / 16 = real_of_int (16 * k + 15) * 2 powi (- 4)"
    by (simp add: power_int_minus field_simps)
  have "fl (real_of_int (16 * k + 15) * 2 powi (- 4)) = real_of_int (16 * k + 15) * 2 powi (- 4)"
    using k0 by (intro fl_dyadic) simp
  then have "fl (real_of_int k + 15 / 16) = real_of_int k + 15 / 16" unfolding d .
  moreover have "fl p \<le> fl (real_of_int k + 15 / 16)"
    using k0 lo hi by (intro fl_mono) simp_all
  ultimately have 2: "fl p < real_of_int k + 1" by simp
  from 1 2 have "\<lfloor>fl p\<rfloor> = k" by (intro floor_unique) simp_all
  moreover have "0 \<le> fl p" using 1 k0 by simp
  ultimately have "py_int (fl p) = k" by (simp add: py_int_def)
  with k0 show ?thesis by (simp add: darken_channel_def fx p_def k_def)
qed

lemma darken_channel_neg_arg:
  assumes "x \<le> 0"
  shows "darken_channel x (9 / 10) = 0"
proof -
  have "fl (of_int x) \<le> 0" using assms by (intro fl_nonpos) simp
  moreover have "0 \<le> fl (9 / 10)" by (intro fl_nonneg) simp
  ultimately have "fl (of_int x) * fl (9 / 10) \<le> 0" by (simp add: mult_le_0_iff)
  then have "fl (fl (of_int x) * fl (9 / 10)) \<le> 0" by (rule fl_nonpos)
  then have "py_int (fl (fl (of_int x) * fl (9 / 10))) \<le> 0"
    unfolding py_int_def by (auto simp: ceiling_le_iff)
  then show ?thesis by (simp add: darken_channel_def)
qed

lemma darken_channel_eq:
  "x \<le> 255 \<Longrightarrow> darken_channel x (9 / 10) = (if 0 \<le> x then (9 * x) div 10 else 0)"
  using darken_channel_nonneg_arg [of x] darken_channel_neg_arg [of x] by simp

lemma darken_channel_ge0: "0 \<le> darken_channel x f"
  by (simp add: darken_channel_def)

lemma darken_channel_le: "0 \<le> x \<Longrightarrow> x \<le> 255 \<Longrightarrow> darken_channel x (9 / 10) \<le> x"
  by (simp add: darken_channel_nonneg_arg)

lemma darken_channel_le_255:
  assumes "x \<le> 255"
  shows "darken_channel x (9 / 10) \<le> 255"
proof (cases "0 \<le> x")
  case True
  with assms darken_channel_le [of x] show ?thesis by simp
next
  case False
  then show ?thesis by (simp add: darken_channel_neg_arg)
qed

lemma div_pow_range:
  "0 \<le> x \<Longrightarrow> x \<le> 255 \<Longrightarrow>
   0 \<le> ((\<lambda>c. (9 * c) div 10) ^^ n) x \<and> ((\<lambda>c. (9 * c) div 10) ^^ n) x \<le> (255 :: int)"
  by (induction n) auto

lemma div_pow_mono:
  "x \<le> y \<Longrightarrow> ((\<lambda>c. (9 * c) div 10) ^^ n) x \<le> ((\<lambda>c. (9 * c) div 10) ^^ n) (y :: int)"
  by (induction n) (auto intro!: zdiv_mono1)

lemma div_pow_255: "((\<lambda>c. (9 * c) div 10) ^^ 37) (255 :: int) = 0"
  by (simp add: numeral_eq_Suc)

lemma div_pow_0: "((\<lambda>c. (9 * c) div 10) ^^ k) (0 :: int) = 0"
  by (induction k) simp_all

lemma darken_channel_pow_div:
  assumes "0 \<le> x" "x \<le> 255"
  shows "((\<lambda>c. darken_channel c (9 / 10)) ^^ n) x = ((\<lambda>c. (9 * c) div 10) ^^ n) x"
proof (induction n)
  case 0
  show ?case by simp
next
  case (Suc n)
  from div_pow_range [OF assms, of n]
  have r: "0 \<le> ((\<lambda>c. (9 * c) div 10) ^^ n) x" "((\<lambda>c. (9 * c) div 10) ^^ n) x \<le> 255"
    by simp_all
  have "((\<lambda>c. darken_channel c (9 / 10)) ^^ Suc n) x
          = darken_channel (((\<lambda>c. (9 * c) div 10) ^^ n) x) (9 / 10)"
    by (simp add: Suc.IH)
  also have "\<dots> = (9 * ((\<lambda>c. (9 * c) div 10) ^^ n) x) div 10"
    by (rule darken_channel_nonneg_arg [OF r])
  finally show ?case by simp
qed

lemma darken_channel_pow_zero:
  assumes "0 \<le> x" "x \<le> 255" "37 \<le> n"
  shows "((\<lambda>c. darken_channel c (9 / 10)) ^^ n) x = 0"
proof -
  from assms(3) obtain k where n: "n = k + 37"
    by (metis le_add_diff_inverse2)
  have "((\<lambda>c. (9 * c) div 10) ^^ 37) x \<le> ((\<lambda>c. (9 * c) div 10) ^^ 37) 255"
    using assms(2) by (rule div_pow_mono)
  with div_pow_range [OF assms(1,2), of 37] have "((\<lambda>c. (9 * c) div 10) ^^ 37) x = 0"
    by (simp add: div_pow_255)
  then have "((\<lambda>c. (9 * c) div 10) ^^ n) x = 0"
    by (simp add: n funpow_add div_pow_0)
  then show ?thesis
    by (simp only: darken_channel_pow_div [OF assms(1,2)])
qed

lemma darken_channel_pow_step:
  assumes "0 \<le> x" "x \<le> 255"
  shows "0 \<le> ((\<lambda>c. darken_channel c (9 / 10)) ^^ n) x"
    and "((\<lambda>c. darken_channel c (9 / 10)) ^^ Suc n) x \<le> ((\<lambda>c. darken_channel c (9 / 10)) ^^ n) x"
proof -
  from div_pow_range [OF assms, of n]
  have r: "0 \<le> ((\<lambda>c. (9 * c) div 10) ^^ n) x" by simp
  then show "0 \<le> ((\<lambda>c. darken_channel c (9 / 10)) ^^ n) x"
    by (simp add: darken_channel_pow_div [OF assms])
  from r show "((\<lambda>c. darken_channel c (9 / 10)) ^^ Suc n) x \<le> ((\<lambda>c. darken_channel c (9 / 10)) ^^ n) x"
    unfolding darken_channel_pow_div [OF assms] by simp
qed

lemma darken_n_channels:
  "darken_n n (r, g, b) =
     (((\<lambda>c. darken_channel c (9 / 10)) ^^ n) r,
      ((\<lambda>c. darken_channel c (9 / 10)) ^^ n) g,
      ((\<lambda>c. darken_channel c (9 / 10)) ^^ n) b)"
  by (induction n) (simp_all add: darken_n_def darken_color_def)

lemma brightness_mono:
  assumes "0 \<le> r'" "r' \<le> r" "0 \<le> g'" "g' \<le> g" "0 \<le> b'" "b' \<le> b"
  shows "calculate_brightness (r', g', b') \<le> calculate_brightness (r, g, b)"
proof -
  have prod: "0 \<le> fl (fl w * fl (of_int c')) \<and> fl (fl w * fl (of_int c')) \<le> fl (fl w * fl (of_int c))"
    if "0 \<le> w" "0 \<le> c'" "c' \<le> c" for w :: real and c' c :: int
  proof -
    have w: "0 \<le> fl w" using that(1) by (rule fl_nonneg)
    have c: "0 \<le> fl (of_int c')" "fl (of_int c') \<le> fl (of_int c)"
      using that(2,3) by (simp_all add: fl_nonneg fl_mono)
    from w c have "0 \<le> fl w * fl (of_int c')" "fl w * fl (of_int c') \<le> fl w * fl (of_int c)"
      by (simp_all add: mult_left_mono)
    then show ?thesis by (simp add: fl_nonneg fl_mono)
  qed
  from prod [of "299 / 1000" r' r] assms
  have tr: "0 \<le> fl (fl (299 / 1000) * fl (of_int r'))"
    "fl (fl (299 / 1000) * fl (of_int r')) \<le> fl (fl (299 / 1000) * fl (of_int r))" by simp_all
  from prod [of "587 / 1000" g' g] assms
  have tg: "0 \<le> fl (fl (587 / 1000) * fl (of_int g'))"
    "fl (fl (587 / 1000) * fl (of_int g')) \<le> fl (fl (587 / 1000) * fl (of_int g))" by simp_all
  from prod [of "114 / 1000" b' b] assms
  have tb: "0 \<le> fl (fl (114 / 1000) * fl (of_int b'))"
    "fl (fl (114 / 1000) * fl (of_int b')) \<le> fl (fl (114 / 1000) * fl (of_int b))" by simp_all
  have s: "0 \<le> fl (fl (fl (299 / 1000) * fl (of_int r')) + fl (fl (587 / 1000) * fl (of_int g')))"
    "fl (fl (fl (299 / 1000) * fl (of_int r')) + fl (fl (587 / 1000) * fl (of_int g')))
       \<le> fl (fl (fl (299 / 1000) * fl (of_int r)) + fl (fl (587 / 1000) * fl (of_int g)))"
    using tr tg by (simp_all add: fl_nonneg fl_mono add_mono)
  have "0 \<le> fl (fl (fl (299 / 1000) * fl (of_int r')) + fl (fl (587 / 1000) * fl (of_int g')))
            + fl (fl (114 / 1000) * fl (of_int b'))"
    using s(1) tb(1) by (rule add_nonneg_nonneg)
  moreover have "fl (fl (fl (299 / 1000) * fl (of_int r')) + fl (fl (587 / 1000) * fl (of_int g')))
            + fl (fl (114 / 1000) * fl (of_int b'))
        \<le> fl (fl (fl (299 / 1000) * fl (of_int r)) + fl (fl (587 / 1000) * fl (of_int g)))
            + fl (fl (114 / 1000) * fl (of_int b))"
    using s(2) tb(2) by (rule add_mono)
  ultimately have "fl (fl (fl (fl (299 / 1000) * fl (of_int r')) + fl (fl (587 / 1000) * fl (of_int g')))
            + fl (fl (114 / 1000) * fl (of_int b')))
        \<le> fl (fl (fl (fl (299 / 1000) * fl (of_int r)) + fl (fl (587 / 1000) * fl (of_int g)))
            + fl (fl (114 / 1000) * fl (of_int b)))"
    by (rule fl_mono)
  then show ?thesis by (simp add: calculate_brightness_def)
qed

text \<open>
  C9.  For a colour with channels in 0..255, applying \<^verbatim>\<open>darken_color\<close> (factor 0.9)
  again and again gives a sequence whose brightness never increases, and from the 37th
  application on the colour is exactly (0, 0, 0).
\<close>

theorem darken_repeated:
  assumes "0 \<le> r" "r \<le> 255" "0 \<le> g" "g \<le> 255" "0 \<le> b" "b \<le> 255"
  shows "(\<forall>n. calculate_brightness (darken_n (Suc n) (r, g, b))
              \<le> calculate_brightness (darken_n n (r, g, b)))
         \<and> (\<forall>n. 37 \<le> n \<longrightarrow> darken_n n (r, g, b) = (0, 0, 0))"
proof (intro conjI allI impI)
  fix n
  note s = darken_channel_pow_step [of _ n]
  show "calculate_brightness (darken_n (Suc n) (r, g, b))
          \<le> calculate_brightness (darken_n n (r, g, b))"
    unfolding darken_n_channels
    by (rule brightness_mono)
       (use assms darken_channel_pow_step [of r "Suc n"] darken_channel_pow_step [of g "Suc n"]
          darken_channel_pow_step [of b "Suc n"] s(2) [of r] s(2) [of g] s(2) [of b] in simp_all)
next
  fix n :: nat
  assume "37 \<le> n"
  with assms show "darken_n n (r, g, b) = (0, 0, 0)"
    by (simp add: darken_n_channels darken_channel_pow_zero)
qed

theorem darken_repeated_witness:
  "calculate_brightness (darken_n (Suc 0) (255, 128, 7)) \<le> calculate_brightness (darken_n 0 (255, 128, 7))
   \<and> darken_n 37 (255, 128, 7) = (0, 0, 0)
   \<and> darken_n 36 (255, 128, 7) = (1, 0, 0)"
proof -
  have "((\<lambda>c. (9 * c) div 10) ^^ 36) (255 :: int) = 1"
    "((\<lambda>c. (9 * c) div 10) ^^ 36) (128 :: int) = 0"
    "((\<lambda>c. (9 * c) div 10) ^^ 36) (7 :: int) = 0"
    by (simp_all add: numeral_eq_Suc)
  then have "darken_n 36 (255, 128, 7) = (1, 0, 0)"
    by (simp only: darken_n_channels) (simp add: darken_channel_pow_div)
  with darken_repeated [of 255 128 7] show ?thesis by simp
qed

section \<open>The darkening loop of the palette matcher\<close>

lemma darken_loop_exit:
  "calculate_brightness c < fb \<Longrightarrow> darken_loop c fb = Some c"
  by (subst darken_loop.simps) simp

lemma darken_loop_step:
  "fb \<le> calculate_brightness c \<Longrightarrow> darken_loop c fb = darken_loop (darken_color c (9 / 10)) fb"
  by (subst darken_loop.simps) simp

lemma darken_loop_result:
  assumes "darken_loop c fb = Some l"
  shows "calculate_brightness l < fb"
  by (rule darken_loop.raw_induct [where P = "\<lambda>c fb l. calculate_brightness l < fb", OF _ assms])
     (auto split: if_splits)

lemma nonneg_darken: "nonneg (darken_color c f)"
  by (cases c) (simp add: nonneg_def darken_color_def darken_channel_ge0)

lemma brightness_nonneg: "nonneg c \<Longrightarrow> 0 \<le> calculate_brightness c"
  by (cases c) (simp add: nonneg_def calculate_brightness_def fl_nonneg)

lemma brightness_black: "calculate_brightness (0, 0, 0) = 0"
  by (simp add: calculate_brightness_def fl_0)

lemma darken_loop_no_result:
  assumes "darken_loop c fb = Some l"
  shows "\<not> (fb \<le> 0 \<and> nonneg c)"
proof (rule darken_loop.raw_induct [where P = "\<lambda>c fb l. \<not> (fb \<le> 0 \<and> nonneg c)", OF _ assms])
  fix loop :: "color \<Rightarrow> real \<Rightarrow> color option" and c fb l
  assume IH: "\<And>c fb l. loop c fb = Some l \<Longrightarrow> \<not> (fb \<le> 0 \<and> nonneg c)"
    and body: "(if fb \<le> calculate_brightness c then loop (darken_color c (9 / 10)) fb else Some c) = Some l"
  show "\<not> (fb \<le> 0 \<and> nonneg c)"
  proof
    assume a: "fb \<le> 0 \<and> nonneg c"
    then have "fb \<le> calculate_brightness c"
      using brightness_nonneg [of c] by simp
    with body have "loop (darken_color c (9 / 10)) fb = Some l" by simp
    from IH [OF this] a nonneg_darken show False by simp
  qed
qed

lemma darken_loop_diverges:
  "fb \<le> 0 \<Longrightarrow> nonneg c \<Longrightarrow> darken_loop c fb = None"
  using darken_loop_no_result [of c fb] by (cases "darken_loop c fb") auto

lemma nat_darken_channel_le: "x \<le> 255 \<Longrightarrow> nat (darken_channel x (9 / 10)) \<le> nat x"
  by (simp add: darken_channel_eq) linarith

lemma nat_darken_channel_less: "0 < x \<Longrightarrow> x \<le> 255 \<Longrightarrow> nat (darken_channel x (9 / 10)) < nat x"
  by (simp add: darken_channel_eq)

lemma positive_channel:
  assumes "0 < calculate_brightness (r, g, b)"
  shows "0 < r \<or> 0 < g \<or> 0 < b"
proof (rule ccontr)
  assume "\<not> ?thesis"
  then have c: "r \<le> 0" "g \<le> 0" "b \<le> 0" by auto
  have prod: "fl (fl w * fl (of_int x)) \<le> 0" if "0 \<le> w" "x \<le> 0" for w :: real and x :: int
  proof -
    have "0 \<le> fl w" using that(1) by (rule fl_nonneg)
    moreover have "fl (of_int x) \<le> 0" using that(2) by (intro fl_nonpos) simp
    ultimately have "fl w * fl (of_int x) \<le> 0" by (simp add: mult_le_0_iff)
    then show ?thesis by (rule fl_nonpos)
  qed
  from prod [of "299 / 1000" r] prod [of "587 / 1000" g] prod [of "114 / 1000" b] c
  have t: "fl (fl (299 / 1000) * fl (of_int r)) \<le> 0" "fl (fl (587 / 1000) * fl (of_int g)) \<le> 0"
    "fl (fl (114 / 1000) * fl (of_int b)) \<le> 0" by simp_all
  from t(1,2) have "fl (fl (299 / 1000) * fl (of_int r)) + fl (fl (587 / 1000) * fl (of_int g)) \<le> 0"
    by (rule add_nonpos_nonpos)
  then have "fl (fl (fl (299 / 1000) * fl (of_int r)) + fl (fl (587 / 1000) * fl (of_int g))) \<le> 0"
    by (rule fl_nonpos)
  from this t(3)
  have "fl (fl (fl (299 / 1000) * fl (of_int r)) + fl (fl (587 / 1000) * fl (of_int g)))
          + fl (fl (114 / 1000) * fl (of_int b)) \<le> 0"
    by (rule add_nonpos_nonpos)
  then have "calculate_brightness (r, g, b) \<le> 0"
    unfolding calculate_brightness_def prod.case by (rule fl_nonpos)
  with assms show False by simp
qed

lemma in_range_darken: "in_range c \<Longrightarrow> in_range (darken_color c (9 / 10))"
  by (cases c) (simp add: in_range_def darken_color_def darken_channel_le_255)

lemma weight_darken:
  assumes "0 < calculate_brightness c" "in_range c"
  shows "weight (darken_color c (9 / 10)) < weight c"
proof -
  obtain r g b where c: "c = (r, g, b)" by (cases c)
  from assms(2) have le: "r \<le> 255" "g \<le> 255" "b \<le> 255" by (simp_all add: c in_range_def)
  from assms(1) positive_channel have "0 < r \<or> 0 < g \<or> 0 < b" unfolding c by blast
  then have "nat (darken_channel r (9 / 10)) + nat (darken_channel g (9 / 10))
               + nat (darken_channel b (9 / 10)) < nat r + nat g + nat b"
    using nat_darken_channel_le [OF le(1)] nat_darken_channel_le [OF le(2)]
      nat_darken_channel_le [OF le(3)]
      nat_darken_channel_less [OF _ le(1)] nat_darken_channel_less [OF _ le(2)]
      nat_darken_channel_less [OF _ le(3)]
    by linarith
  then show ?thesis
    unfolding c darken_color_def weight_def by simp
qed

text \<open>With a foundation brightness above zero the loop does return, for every colour
  without a channel above 255.\<close>

lemma darken_loop_terminates:
  assumes "0 < fb" "in_range c"
  shows "\<exists>l. darken_loop c fb = Some l"
  using assms(2)
proof (induction "weight c" arbitrary: c rule: less_induct)
  case less
  show ?case
  proof (cases "fb \<le> calculate_brightness c")
    case True
    with assms have "0 < calculate_brightness c" by simp
    then have "weight (darken_color c (9 / 10)) < weight c"
      using less.prems by (rule weight_darken)
    from less.hyps [OF this in_range_darken [OF less.prems]] True show ?thesis
      by (simp add: darken_loop_step)
  next
    case False
    then have "darken_loop c fb = Some c" by (intro darken_loop_exit) simp
    then show ?thesis by blast
  qed
qed

section \<open>Hexadecimal colour strings\<close>

lemma hex_digit_range:
  "is_hex_digit c \<longleftrightarrow>
     (48 \<le> (of_char c :: nat) \<and> (of_char c :: nat) \<le> 57) \<or>
     (97 \<le> (of_char c :: nat) \<and> (of_char c :: nat) \<le> 102) \<or>
     (65 \<le> (of_char c :: nat) \<and> (of_char c :: nat) \<le> 70)"
  by (auto simp: is_hex_digit_def digit_value_def Let_def)

lemma hex_digit_not_special:
  assumes "is_hex_digit c"
  shows "\<not> is_space c" "c \<noteq> CHR ''+''" "c \<noteq> CHR ''-''" "c \<noteq> CHR ''_''"
    "c \<noteq> CHR ''x''" "c \<noteq> CHR ''X''" "c \<noteq> CHR ''#''"
  using assms unfolding hex_digit_range is_space_def by auto

lemma digit_value_Some:
  assumes "is_hex_digit c"
  shows "\<exists>v. digit_value c = Some v \<and> v < 16 \<and> hex_char v = lower_char c"
proof -
  have c: "char_of (of_char c :: nat) = c" by simp
  from assms show ?thesis
    unfolding hex_digit_range digit_value_def Let_def hex_char_def lower_char_def
    using c by (auto simp: )
qed

lemma py_int16_two_digits:
  assumes "is_hex_digit a" "is_hex_digit b"
  shows "py_int16 [a, b] = Inr (int (16 * the (digit_value a) + the (digit_value b)))"
  using hex_digit_not_special [OF assms(1)] hex_digit_not_special [OF assms(2)] assms
  by (simp add: py_int16_def digits_value_def)

lemma to_hex_digit: "v < 16 \<Longrightarrow> to_hex v = [hex_char v]"
  by (subst to_hex.simps) simp

lemma to_hex_byte:
  assumes "0 < va" "va < 16" "vb < 16"
  shows "to_hex (16 * va + vb) = [hex_char va, hex_char vb]"
proof -
  have "\<not> 16 * va + vb < 16" using assms by simp
  moreover have "(16 * va + vb) div 16 = va" "(16 * va + vb) mod 16 = vb"
    using assms by simp_all
  ultimately show ?thesis
    by (subst to_hex.simps) (simp add: to_hex_digit assms)
qed

lemma hex_char_0: "hex_char 0 = CHR ''0''"
  by code_simp

lemma fmt_02x_byte:
  assumes "va < 16" "vb < 16"
  shows "fmt_02x (int (16 * va + vb)) = [hex_char va, hex_char vb]"
proof (cases "va = 0")
  case True
  with assms show ?thesis
    by (simp add: fmt_02x_def to_hex_digit hex_char_0)
next
  case False
  with assms have "to_hex (16 * va + vb) = [hex_char va, hex_char vb]"
    by (intro to_hex_byte) simp_all
  then show ?thesis
    by (simp add: fmt_02x_def del: of_nat_add of_nat_mult)
qed

lemma byte_roundtrip:
  assumes "is_hex_digit a" "is_hex_digit b"
  shows "\<exists>n. py_int16 [a, b] = Inr n \<and> fmt_02x n = [lower_char a, lower_char b]
             \<and> 0 \<le> n \<and> n \<le> 255"
proof -
  from digit_value_Some [OF assms(1)] obtain va
    where va: "digit_value a = Some va" "va < 16" "hex_char va = lower_char a" by blast
  from digit_value_Some [OF assms(2)] obtain vb
    where vb: "digit_value b = Some vb" "vb < 16" "hex_char vb = lower_char b" by blast
  have "py_int16 [a, b] = Inr (int (16 * va + vb))"
    using py_int16_two_digits [OF assms] va vb by simp
  moreover have "fmt_02x (int (16 * va + vb)) = [lower_char a, lower_char b]"
    using fmt_02x_byte [OF va(2) vb(2)] va vb by simp
  moreover have "0 \<le> int (16 * va + vb)" "int (16 * va + vb) \<le> 255"
    using va(2) vb(2) by simp_all
  ultimately show ?thesis by blast
qed

lemma six_hex_digitsE:
  assumes "six_hex_digits ds"
  obtains a b c d e f where "ds = [a, b, c, d, e, f]"
    "is_hex_digit a" "is_hex_digit b" "is_hex_digit c"
    "is_hex_digit d" "is_hex_digit e" "is_hex_digit f"
proof -
  from assms have l: "length ds = 6" and h: "list_all is_hex_digit ds"
    by (simp_all add: six_hex_digits_def)
  from l obtain a b c d e f where "ds = [a, b, c, d, e, f]"
    by (auto simp: length_Suc_conv numeral_eq_Suc)
  with h that show ?thesis by simp
qed

lemma lower_char_idem: "lower_char (lower_char c) = lower_char c"
proof (cases "65 \<le> (of_char c :: nat) \<and> (of_char c :: nat) \<le> 90")
  case True
  then have "of_char (char_of (of_char c + 32 :: nat)) = (of_char c + 32 :: nat)"
    by simp
  with True show ?thesis
    by (simp add: lower_char_def Let_def)
next
  case False
  then show ?thesis by (auto simp: lower_char_def Let_def)
qed

lemma hex_digits_parse:
  assumes "six_hex_digits ds"
  shows "\<exists>c. hex_to_rgb ds = Inr c \<and> hex_to_rgb (CHR ''#'' # ds) = Inr c
             \<and> nonneg c \<and> in_range c"
proof -
  from assms obtain a b c d e f where ds: "ds = [a, b, c, d, e, f]"
    and h: "is_hex_digit a" "is_hex_digit b" "is_hex_digit c"
    "is_hex_digit d" "is_hex_digit e" "is_hex_digit f"
    by (rule six_hex_digitsE)
  from byte_roundtrip [OF h(1) h(2)] obtain r
    where r: "py_int16 [a, b] = Inr r" "0 \<le> r" "r \<le> 255" by blast
  from byte_roundtrip [OF h(3) h(4)] obtain g
    where g: "py_int16 [c, d] = Inr g" "0 \<le> g" "g \<le> 255" by blast
  from byte_roundtrip [OF h(5) h(6)] obtain bl
    where bl: "py_int16 [e, f] = Inr bl" "0 \<le> bl" "bl \<le> 255" by blast
  have nh: "a \<noteq> CHR ''#''" using hex_digit_not_special [OF h(1)] by simp
  have "hex_to_rgb ds = Inr (r, g, bl)" "hex_to_rgb (CHR ''#'' # ds) = Inr (r, g, bl)"
    using nh r(1) g(1) bl(1) by (simp_all add: hex_to_rgb_def slice2_def ds)
  moreover have "nonneg (r, g, bl)" "in_range (r, g, bl)"
    using r g bl by (simp_all add: nonneg_def in_range_def)
  ultimately show ?thesis by blast
qed

text \<open>
  C6 (as amended).  For six hexadecimal digits \<open>ds\<close> in any letter case, with or without
  a \<^verbatim>\<open>#\<close> in front, \<^verbatim>\<open>hex_to_rgb\<close> succeeds and \<^verbatim>\<open>rgb_to_hex\<close> of its result is
  \<^verbatim>\<open>#\<close> followed by the digits in lower case: the string with the prefix comes back up
  to letter case.
\<close>

theorem hex_roundtrip:
  assumes "six_hex_digits ds"
  shows "\<exists>c. hex_to_rgb (CHR ''#'' # ds) = Inr c \<and> hex_to_rgb ds = Inr c
             \<and> rgb_to_hex c = CHR ''#'' # lower ds
             \<and> lower (rgb_to_hex c) = lower (CHR ''#'' # ds)"
proof -
  from assms obtain a b c d e f where ds: "ds = [a, b, c, d, e, f]"
    and h: "is_hex_digit a" "is_hex_digit b" "is_hex_digit c"
    "is_hex_digit d" "is_hex_digit e" "is_hex_digit f"
    by (rule six_hex_digitsE)
  from byte_roundtrip [OF h(1) h(2)] obtain r
    where r: "py_int16 [a, b] = Inr r" "fmt_02x r = [lower_char a, lower_char b]" by blast
  from byte_roundtrip [OF h(3) h(4)] obtain g
    where g: "py_int16 [c, d] = Inr g" "fmt_02x g = [lower_char c, lower_char d]" by blast
  from byte_roundtrip [OF h(5) h(6)] obtain bl
    where bl: "py_int16 [e, f] = Inr bl" "fmt_02x bl = [lower_char e, lower_char f]" by blast
  have nh: "a \<noteq> CHR ''#''" using hex_digit_not_special [OF h(1)] by simp
  have 1: "hex_to_rgb ds = Inr (r, g, bl)"
    using nh r g bl by (simp add: hex_to_rgb_def slice2_def ds)
  have 2: "hex_to_rgb (CHR ''#'' # ds) = Inr (r, g, bl)"
    using nh r g bl by (simp add: hex_to_rgb_def slice2_def ds)
  have 3: "rgb_to_hex (r, g, bl) = CHR ''#'' # lower ds"
    using r g bl by (simp add: rgb_to_hex_def lower_def ds)
  have 4: "lower (rgb_to_hex (r, g, bl)) = lower (CHR ''#'' # ds)"
    unfolding 3 by (simp add: lower_def lower_char_idem)
  from 1 2 3 4 show ?thesis by blast
qed

theorem hex_roundtrip_witness:
  "six_hex_digits ''Ff00a0''
   \<and> hex_to_rgb ''#Ff00a0'' = Inr (255, 0, 160) \<and> hex_to_rgb ''Ff00a0'' = Inr (255, 0, 160)
   \<and> rgb_to_hex (255, 0, 160) = ''#ff00a0''
   \<and> lower (rgb_to_hex (255, 0, 160)) = lower ''#Ff00a0''"
proof -
  have s: "six_hex_digits ''Ff00a0''" by code_simp
  have e: "hex_to_rgb ''#Ff00a0'' = Inr (255, 0, 160)" by code_simp
  have l: "lower ''Ff00a0'' = ''ff00a0''" by code_simp
  from hex_roundtrip [OF s] e s l show ?thesis by auto
qed

text \<open>
  C6 as stated fails for a string without the prefix: \<^verbatim>\<open>rgb_to_hex\<close> always writes the
  \<^verbatim>\<open>#\<close>, so \<^verbatim>\<open>ff0000\<close> comes back as \<^verbatim>\<open>#ff0000\<close>, which differs from it in more than
  letter case.
\<close>

theorem hex_roundtrip_counterexample:
  "six_hex_digits ''ff0000''
   \<and> hex_to_rgb ''ff0000'' = Inr (255, 0, 0)
   \<and> rgb_to_hex (255, 0, 0) = ''#ff0000''
   \<and> lower (rgb_to_hex (255, 0, 0)) \<noteq> lower ''ff0000''"
  by code_simp

section \<open>Palette matcher\<close>

text \<open>
  C3.  The claim is that the darkening loop always ends, also when the matched foundation
  has brightness 0.  The source's loop has no bound: with a black foundation the
  comparison \<^verbatim>\<open>lipstick_brightness >= foundation_brightness\<close> stays true once the lipstick
  is (0, 0, 0), and the loop never returns.  Evaluated at a white lipstick and the
  brightness of a black foundation.
\<close>

theorem darken_loop_black_foundation:
  "darken_loop (255, 255, 255) (calculate_brightness (0, 0, 0)) = None"
  by (rule darken_loop_diverges) (simp_all add: brightness_black nonneg_def)

text \<open>
  C5 (as amended).  Whenever the matcher returns colours, the brightness of the lipstick
  as the code computes it, in double precision, is strictly below the brightness of the
  foundation computed the same way, or both colours are (0, 0, 0).
\<close>

theorem lipstick_darker_than_foundation:
  assumes "recommend_complementary_colors skin lip scheme = Some (Inr (foundation, eyeshadow, lipstick))"
  shows "calculate_brightness lipstick < calculate_brightness foundation
         \<or> (lipstick = (0, 0, 0) \<and> foundation = (0, 0, 0))"
proof -
  from assms obtain lipstick_color
    where "darken_loop lipstick_color (calculate_brightness foundation) = Some lipstick"
    unfolding recommend_complementary_colors_def
    by (auto split: sum.splits option.splits)
  then show ?thesis by (simp add: darken_loop_result)
qed

lemma hex_646464: "hex_to_rgb ''#646464'' = Inr (100, 100, 100)"
  by code_simp

lemma hex_969696: "hex_to_rgb ''#969696'' = Inr (150, 150, 150)"
  by code_simp

lemma hex_000000: "hex_to_rgb ''#000000'' = Inr (0, 0, 0)"
  by code_simp

lemma hex_FFFFFF: "hex_to_rgb ''FFFFFF'' = Inr (255, 255, 255)"
  by code_simp

lemma hex_fee6f6: "hex_to_rgb ''#fee6f6'' = Inr (254, 230, 246)"
  by code_simp

lemma hex_efefef: "hex_to_rgb ''#efefef'' = Inr (239, 239, 239)"
  by code_simp

lemma brightness_grey_100: "calculate_brightness (100, 100, 100) = 100"
proof -
  have p1: "fl (5386305154335113 / 18014398509481984 * real_of_int 100) = 4208050901824307 / 140737488355328"
    by (rule fl_val [of 4 _ 8416101803648614]) (simp_all add: round_half_even_def Let_def)
  have p2: "fl (2643612981266481 / 4503599627370496 * real_of_int 100) = 8261290566457753 / 140737488355328"
    by (rule fl_val [of 5 _ 8261290566457753]) (simp_all add: round_half_even_def Let_def)
  have s: "fl (4208050901824307 / 140737488355328 + 8261290566457753 / 140737488355328) = 3117335367070515 / 35184372088832"
    by (rule fl_val [of 6 _ 6234670734141030]) (simp_all add: round_half_even_def Let_def)
  have p3: "fl (8214565720323785 / 72057594037927936 * real_of_int 100) = 6417629469002957 / 562949953421312"
    by (rule fl_val [of 3 _ 6417629469002957]) (simp_all add: round_half_even_def Let_def)
  have t: "fl (3117335367070515 / 35184372088832 + 6417629469002957 / 562949953421312) = 100"
    by (rule fl_val [of 6 _ 7036874417766400]) (simp_all add: round_half_even_def Let_def)
  show ?thesis
    by (rule brightness_eval [OF _ _ _ p1 p2 s p3 t]) simp_all
qed

lemma brightness_grey_150: "calculate_brightness (150, 150, 150) = 150"
proof -
  have p1: "fl (5386305154335113 / 18014398509481984 * real_of_int 150) = 6312076352736461 / 140737488355328"
    by (rule fl_val [of 5 _ 6312076352736461]) (simp_all add: round_half_even_def Let_def)
  have p2: "fl (2643612981266481 / 4503599627370496 * real_of_int 150) = 6195967924843315 / 70368744177664"
    by (rule fl_val [of 6 _ 6195967924843315]) (simp_all add: round_half_even_def Let_def)
  have s: "fl (6312076352736461 / 140737488355328 + 6195967924843315 / 70368744177664) = 4676003050605773 / 35184372088832"
    by (rule fl_val [of 7 _ 4676003050605773]) (simp_all add: round_half_even_def Let_def)
  have p3: "fl (8214565720323785 / 72057594037927936 * real_of_int 150) = 2406611050876109 / 140737488355328"
    by (rule fl_val [of 4 _ 4813222101752218]) (simp_all add: round_half_even_def Let_def)
  have t: "fl (4676003050605773 / 35184372088832 + 2406611050876109 / 140737488355328) = 150"
    by (rule fl_val [of 7 _ 5277655813324800]) (simp_all add: round_half_even_def Let_def)
  show ?thesis
    by (rule brightness_eval [OF _ _ _ p1 p2 s p3 t]) simp_all
qed

lemma brightness_grey_135: "calculate_brightness (135, 135, 135) = 135"
proof -
  have p1: "fl (5386305154335113 / 18014398509481984 * real_of_int 135) = 2840434358731407 / 70368744177664"
    by (rule fl_val [of 5 _ 5680868717462814]) (simp_all add: round_half_even_def Let_def)
  have p2: "fl (2643612981266481 / 4503599627370496 * real_of_int 135) = 5576371132358983 / 70368744177664"
    by (rule fl_val [of 6 _ 5576371132358983]) (simp_all add: round_half_even_def Let_def)
  have s: "fl (2840434358731407 / 70368744177664 + 5576371132358983 / 70368744177664) = 4208402745545195 / 35184372088832"
    by (rule fl_val [of 6 _ 8416805491090390]) (simp_all add: round_half_even_def Let_def)
  have p3: "fl (8214565720323785 / 72057594037927936 * real_of_int 135) = 1082974972894249 / 70368744177664"
    by (rule fl_val [of 3 _ 8663799783153992]) (simp_all add: round_half_even_def Let_def)
  have t: "fl (4208402745545195 / 35184372088832 + 1082974972894249 / 70368744177664) = 135"
    by (rule fl_val [of 7 _ 4749890231992320]) (simp_all add: round_half_even_def Let_def)
  show ?thesis
    by (rule brightness_eval [OF _ _ _ p1 p2 s p3 t]) simp_all
qed

lemma brightness_grey_121: "calculate_brightness (121, 121, 121) = 121"
proof -
  have p1: "fl (5386305154335113 / 18014398509481984 * real_of_int 121) = 1272935397801853 / 35184372088832"
    by (rule fl_val [of 5 _ 5091741591207412]) (simp_all add: round_half_even_def Let_def)
  have p2: "fl (2643612981266481 / 4503599627370496 * real_of_int 121) = 4998080792706941 / 70368744177664"
    by (rule fl_val [of 6 _ 4998080792706941]) (simp_all add: round_half_even_def Let_def)
  have s: "fl (1272935397801853 / 35184372088832 + 4998080792706941 / 70368744177664) = 7543951588310647 / 70368744177664"
    by (rule fl_val [of 6 _ 7543951588310647]) (simp_all add: round_half_even_def Let_def)
  have p3: "fl (8214565720323785 / 72057594037927936 * real_of_int 121) = 3882665828746789 / 281474976710656"
    by (rule fl_val [of 3 _ 7765331657493578]) (simp_all add: round_half_even_def Let_def)
  have t: "fl (7543951588310647 / 70368744177664 + 3882665828746789 / 281474976710656) = 121"
    by (rule fl_val [of 6 _ 8514618045497344]) (simp_all add: round_half_even_def Let_def)
  show ?thesis
    by (rule brightness_eval [OF _ _ _ p1 p2 s p3 t]) simp_all
qed

lemma brightness_grey_108: "calculate_brightness (108, 108, 108) = 7599824371187711 / 70368744177664"
proof -
  have p1: "fl (5386305154335113 / 18014398509481984 * real_of_int 108) = 1136173743492563 / 35184372088832"
    by (rule fl_val [of 5 _ 4544694973970252]) (simp_all add: round_half_even_def Let_def)
  have p2: "fl (2643612981266481 / 4503599627370496 * real_of_int 108) = 8922193811774373 / 140737488355328"
    by (rule fl_val [of 5 _ 8922193811774373]) (simp_all add: round_half_even_def Let_def)
  have s: "fl (1136173743492563 / 35184372088832 + 8922193811774373 / 140737488355328) = 841680549109039 / 8796093022208"
    by (rule fl_val [of 6 _ 6733444392872312]) (simp_all add: round_half_even_def Let_def)
  have p3: "fl (8214565720323785 / 72057594037927936 * real_of_int 108) = 3465519913261597 / 281474976710656"
    by (rule fl_val [of 3 _ 6931039826523194]) (simp_all add: round_half_even_def Let_def)
  have t: "fl (841680549109039 / 8796093022208 + 3465519913261597 / 281474976710656) = 7599824371187711 / 70368744177664"
    by (rule fl_val [of 6 _ 7599824371187711]) (simp_all add: round_half_even_def Let_def)
  show ?thesis
    by (rule brightness_eval [OF _ _ _ p1 p2 s p3 t]) simp_all
qed

lemma brightness_grey_97: "calculate_brightness (97, 97, 97) = 97"
proof -
  have p1: "fl (5386305154335113 / 18014398509481984 * real_of_int 97) = 2040904687384789 / 70368744177664"
    by (rule fl_val [of 4 _ 8163618749539156]) (simp_all add: round_half_even_def Let_def)
  have p2: "fl (2643612981266481 / 4503599627370496 * real_of_int 97) = 8013451849464021 / 140737488355328"
    by (rule fl_val [of 5 _ 8013451849464021]) (simp_all add: round_half_even_def Let_def)
  have s: "fl (2040904687384789 / 70368744177664 + 8013451849464021 / 140737488355328) = 94494228314325 / 1099511627776"
    by (rule fl_val [of 6 _ 6047630612116800]) (simp_all add: round_half_even_def Let_def)
  have p3: "fl (8214565720323785 / 72057594037927936 * real_of_int 97) = 1556275146233217 / 140737488355328"
    by (rule fl_val [of 3 _ 6225100584932868]) (simp_all add: round_half_even_def Let_def)
  have t: "fl (94494228314325 / 1099511627776 + 1556275146233217 / 140737488355328) = 97"
    by (rule fl_val [of 6 _ 6825768185233408]) (simp_all add: round_half_even_def Let_def)
  show ?thesis
    by (rule brightness_eval [OF _ _ _ p1 p2 s p3 t]) simp_all
qed

lemma brightness_efefef: "calculate_brightness (239, 239, 239) = 8409064929230847 / 35184372088832"
proof -
  have p1: "fl (5386305154335113 / 18014398509481984 * real_of_int 239) = 5028620827680047 / 70368744177664"
    by (rule fl_val [of 6 _ 5028620827680047]) (simp_all add: round_half_even_def Let_def)
  have p2: "fl (2643612981266481 / 4503599627370496 * real_of_int 239) = 4936121113458507 / 35184372088832"
    by (rule fl_val [of 7 _ 4936121113458507]) (simp_all add: round_half_even_def Let_def)
  have s: "fl (5028620827680047 / 70368744177664 + 4936121113458507 / 35184372088832) = 3725215763649265 / 17592186044416"
    by (rule fl_val [of 7 _ 7450431527298530]) (simp_all add: round_half_even_def Let_def)
  have p3: "fl (8214565720323785 / 72057594037927936 * real_of_int 239) = 3834533607729267 / 140737488355328"
    by (rule fl_val [of 4 _ 7669067215458534]) (simp_all add: round_half_even_def Let_def)
  have t: "fl (3725215763649265 / 17592186044416 + 3834533607729267 / 140737488355328) = 8409064929230847 / 35184372088832"
    by (rule fl_val [of 7 _ 8409064929230847]) (simp_all add: round_half_even_def Let_def)
  show ?thesis
    by (rule brightness_eval [OF _ _ _ p1 p2 s p3 t]) simp_all
qed

lemma brightness_fee6f6: "calculate_brightness (254, 230, 246) = 239"
proof -
  have p1: "fl (5386305154335113 / 18014398509481984 * real_of_int 254) = 2672112322658435 / 35184372088832"
    by (rule fl_val [of 6 _ 5344224645316870]) (simp_all add: round_half_even_def Let_def)
  have p2: "fl (2643612981266481 / 4503599627370496 * real_of_int 230) = 593780259464151 / 4398046511104"
    by (rule fl_val [of 7 _ 4750242075713208]) (simp_all add: round_half_even_def Let_def)
  have s: "fl (2672112322658435 / 35184372088832 + 593780259464151 / 4398046511104) = 7422354398371643 / 35184372088832"
    by (rule fl_val [of 7 _ 7422354398371643]) (simp_all add: round_half_even_def Let_def)
  have p3: "fl (8214565720323785 / 72057594037927936 * real_of_int 246) = 7893684246873637 / 281474976710656"
    by (rule fl_val [of 4 _ 7893684246873637]) (simp_all add: round_half_even_def Let_def)
  have t: "fl (7422354398371643 / 35184372088832 + 7893684246873637 / 281474976710656) = 239"
    by (rule fl_val [of 7 _ 8409064929230848]) (simp_all add: round_half_even_def Let_def)
  show ?thesis
    by (rule brightness_eval [OF _ _ _ p1 p2 s p3 t]) simp_all
qed

lemma darken_loop_150_100:
  "darken_loop (150, 150, 150) (calculate_brightness (100, 100, 100)) = Some (97, 97, 97)"
proof -
  have d: "darken_color (150, 150, 150) (9 / 10) = (135, 135, 135)"
    "darken_color (135, 135, 135) (9 / 10) = (121, 121, 121)"
    "darken_color (121, 121, 121) (9 / 10) = (108, 108, 108)"
    "darken_color (108, 108, 108) (9 / 10) = (97, 97, 97)"
    by (simp_all add: darken_color_def darken_channel_eq)
  have "darken_loop (97, 97, 97) (calculate_brightness (100, 100, 100)) = Some (97, 97, 97)"
    by (rule darken_loop_exit) (simp add: brightness_grey_97 brightness_grey_100)
  then have "darken_loop (108, 108, 108) (calculate_brightness (100, 100, 100)) = Some (97, 97, 97)"
    by (subst darken_loop_step) (simp_all add: brightness_grey_108 brightness_grey_100 d)
  then have "darken_loop (121, 121, 121) (calculate_brightness (100, 100, 100)) = Some (97, 97, 97)"
    by (subst darken_loop_step) (simp_all add: brightness_grey_121 brightness_grey_100 d)
  then have "darken_loop (135, 135, 135) (calculate_brightness (100, 100, 100)) = Some (97, 97, 97)"
    by (subst darken_loop_step) (simp_all add: brightness_grey_135 brightness_grey_100 d)
  then show ?thesis
    by (subst darken_loop_step) (simp_all add: brightness_grey_150 brightness_grey_100 d)
qed

lemma recommend_example:
  "recommend_complementary_colors (90, 90, 90) (160, 151, 150)
     \<lparr>foundation_colors = [\<lparr>hex = ''#000000''\<rparr>, \<lparr>hex = ''#646464''\<rparr>, \<lparr>hex = ''FFFFFF''\<rparr>],
      eyeshadow_colors = [\<lparr>hex = ''FFFFFF''\<rparr>, \<lparr>hex = ''#000000''\<rparr>],
      lipstick_colors = [\<lparr>hex = ''#969696''\<rparr>, \<lparr>hex = ''#646464''\<rparr>]\<rparr>
   = Some (Inr ((100, 100, 100), (0, 0, 0), (97, 97, 97)))"
proof -
  have f: "py_min (distance_key (90, 90, 90))
             [\<lparr>hex = ''#000000''\<rparr>, \<lparr>hex = ''#646464''\<rparr>, \<lparr>hex = ''FFFFFF''\<rparr>]
           = Inr \<lparr>hex = ''#646464''\<rparr>"
    by (simp add: py_min_def distance_key_def hex_000000 hex_646464 hex_FFFFFF
        calculate_color_distance_def)
  have e: "py_min (distance_key (90, 90, 90)) [\<lparr>hex = ''FFFFFF''\<rparr>, \<lparr>hex = ''#000000''\<rparr>]
           = Inr \<lparr>hex = ''#000000''\<rparr>"
    by (simp add: py_min_def distance_key_def hex_000000 hex_FFFFFF calculate_color_distance_def)
  have l: "py_min (distance_key (160, 151, 150)) [\<lparr>hex = ''#969696''\<rparr>, \<lparr>hex = ''#646464''\<rparr>]
           = Inr \<lparr>hex = ''#969696''\<rparr>"
    by (simp add: py_min_def distance_key_def hex_969696 hex_646464 calculate_color_distance_def)
  show ?thesis
    by (simp add: recommend_complementary_colors_def f e l hex_646464 hex_969696 hex_000000
        darken_loop_150_100)
qed

theorem lipstick_darker_than_foundation_witness:
  "recommend_complementary_colors (90, 90, 90) (160, 151, 150)
     \<lparr>foundation_colors = [\<lparr>hex = ''#000000''\<rparr>, \<lparr>hex = ''#646464''\<rparr>, \<lparr>hex = ''FFFFFF''\<rparr>],
      eyeshadow_colors = [\<lparr>hex = ''FFFFFF''\<rparr>, \<lparr>hex = ''#000000''\<rparr>],
      lipstick_colors = [\<lparr>hex = ''#969696''\<rparr>, \<lparr>hex = ''#646464''\<rparr>]\<rparr>
     = Some (Inr ((100, 100, 100), (0, 0, 0), (97, 97, 97)))
   \<and> calculate_brightness (97, 97, 97) < calculate_brightness (100, 100, 100)"
  using lipstick_darker_than_foundation [OF recommend_example] recommend_example
  by simp

text \<open>
  C5 as stated, with the brightness \<open>0.299 R + 0.587 G + 0.114 B\<close> taken exactly, fails:
  for the palette with foundation \<^verbatim>\<open>#fee6f6\<close> and lipstick \<^verbatim>\<open>#efefef\<close> the doubles the
  code compares are 238.99999999999997 and 239.0, so the lipstick is returned as it is,
  while both exact brightnesses are 239 and neither colour is (0, 0, 0).
\<close>

theorem lipstick_darker_counterexample:
  "recommend_complementary_colors (254, 230, 246) (239, 239, 239)
     \<lparr>foundation_colors = [\<lparr>hex = ''#fee6f6''\<rparr>],
      eyeshadow_colors = [\<lparr>hex = ''#fee6f6''\<rparr>],
      lipstick_colors = [\<lparr>hex = ''#efefef''\<rparr>]\<rparr>
     = Some (Inr ((254, 230, 246), (254, 230, 246), (239, 239, 239)))
   \<and> \<not> exact_brightness (239, 239, 239) < exact_brightness (254, 230, 246)
   \<and> (239, 239, 239) \<noteq> ((0, 0, 0) :: color)"
proof -
  have "calculate_brightness (239, 239, 239) < calculate_brightness (254, 230, 246)"
    by (simp add: brightness_efefef brightness_fee6f6)
  then have "darken_loop (239, 239, 239) (calculate_brightness (254, 230, 246)) = Some (239, 239, 239)"
    by (rule darken_loop_exit)
  then have "recommend_complementary_colors (254, 230, 246) (239, 239, 239)
     \<lparr>foundation_colors = [\<lparr>hex = ''#fee6f6''\<rparr>],
      eyeshadow_colors = [\<lparr>hex = ''#fee6f6''\<rparr>],
      lipstick_colors = [\<lparr>hex = ''#efefef''\<rparr>]\<rparr>
     = Some (Inr ((254, 230, 246), (254, 230, 246), (239, 239, 239)))"
    by (simp add: recommend_complementary_colors_def py_min_def distance_key_def
        hex_fee6f6 hex_efefef)
  moreover have "\<not> exact_brightness (239, 239, 239) < exact_brightness (254, 230, 246)"
    by (simp add: exact_brightness_def)
  ultimately show ?thesis by simp
qed

text \<open>
  C7.  The claim is that the matcher reports an error exactly when a category is empty
  and returns colours for every palette whose three categories are non-empty.  With a
  palette whose only foundation is black, no category is empty and the matcher neither
  returns colours nor reports an error: it stays in the darkening loop.
\<close>

theorem recommend_black_foundation:
  "recommend_complementary_colors (0, 0, 0) (255, 255, 255)
     \<lparr>foundation_colors = [\<lparr>hex = ''#000000''\<rparr>],
      eyeshadow_colors = [\<lparr>hex = ''#000000''\<rparr>],
      lipstick_colors = [\<lparr>hex = ''FFFFFF''\<rparr>]\<rparr>
   = None"
proof -
  have "darken_loop (255, 255, 255) (calculate_brightness (0, 0, 0)) = None"
    by (rule darken_loop_diverges) (simp_all add: brightness_black nonneg_def)
  then show ?thesis
    by (simp add: recommend_complementary_colors_def py_min_def distance_key_def
        hex_000000 hex_FFFFFF)
qed

text \<open>
  What the matcher does on a palette of well-formed colour strings: an empty category
  raises the ValueError of \<^verbatim>\<open>min\<close>; with three non-empty categories no error is raised,
  and colours come back whenever the brightness of the matched foundation is above zero.
\<close>

lemma well_formed_hex_parses:
  assumes "well_formed_hex s"
  shows "\<exists>c. hex_to_rgb s = Inr c \<and> in_range c"
proof -
  from assms consider "six_hex_digits s" | ds where "s = CHR ''#'' # ds" "six_hex_digits ds"
    by (auto simp: well_formed_hex_def split: list.splits)
  then show ?thesis
  proof cases
    case 1
    from hex_digits_parse [OF 1] show ?thesis by blast
  next
    case 2
    from hex_digits_parse [OF 2(2)] show ?thesis unfolding 2(1) by blast
  qed
qed

lemma distance_key_ok:
  "well_formed_hex (hex f) \<Longrightarrow> \<exists>k. distance_key target f = Inr k"
  using well_formed_hex_parses [of "hex f"] by (auto simp: distance_key_def)

lemma min_scan_ok:
  assumes "well_formed_swatches xs"
  shows "\<exists>y. min_scan (distance_key target) best kb xs = Inr y \<and> (y = best \<or> y \<in> set xs)"
  using assms
proof (induction xs arbitrary: best kb)
  case Nil
  show ?case by simp
next
  case (Cons x xs)
  then have x: "well_formed_hex (hex x)" and xs: "well_formed_swatches xs"
    by (simp_all add: well_formed_swatches_def)
  from distance_key_ok [OF x] obtain k where k: "distance_key target x = Inr k" by blast
  show ?case
  proof (cases "k < kb")
    case True
    from Cons.IH [OF xs, of x k] obtain y
      where "min_scan (distance_key target) x k xs = Inr y" "y = x \<or> y \<in> set xs" by blast
    with True k show ?thesis by auto
  next
    case False
    from Cons.IH [OF xs, of best kb] obtain y
      where "min_scan (distance_key target) best kb xs = Inr y" "y = best \<or> y \<in> set xs" by blast
    with False k show ?thesis by auto
  qed
qed

lemma py_min_ok:
  assumes "well_formed_swatches xs" "xs \<noteq> []"
  shows "\<exists>y. py_min (distance_key target) xs = Inr y \<and> y \<in> set xs"
proof -
  from assms(2) obtain x r where xs: "xs = x # r" by (cases xs) auto
  with assms(1) have x: "well_formed_hex (hex x)" and r: "well_formed_swatches r"
    by (simp_all add: well_formed_swatches_def)
  from distance_key_ok [OF x] obtain k where k: "distance_key target x = Inr k" by blast
  from min_scan_ok [OF r, of target x k] obtain y
    where "min_scan (distance_key target) x k r = Inr y" "y = x \<or> y \<in> set r" by blast
  with k show ?thesis by (auto simp: py_min_def xs)
qed

lemma py_min_empty: "py_min key [] = Inl ValueError_min_empty"
  by (simp add: py_min_def)

lemma well_formed_member:
  assumes "well_formed_swatches xs" "y \<in> set xs"
  shows "\<exists>c. hex_to_rgb (hex y) = Inr c \<and> in_range c"
proof -
  from assms have "well_formed_hex (hex y)"
    by (simp add: well_formed_swatches_def list_all_iff)
  then show ?thesis by (rule well_formed_hex_parses)
qed

lemma recommend_empty_category:
  assumes "well_formed_scheme scheme"
    and "foundation_colors scheme = [] \<or> eyeshadow_colors scheme = [] \<or> lipstick_colors scheme = []"
  shows "recommend_complementary_colors skin lip scheme = Some (Inl ValueError_min_empty)"
proof -
  from assms(1) have wf: "well_formed_swatches (foundation_colors scheme)"
    "well_formed_swatches (eyeshadow_colors scheme)" "well_formed_swatches (lipstick_colors scheme)"
    by (simp_all add: well_formed_scheme_def)
  show ?thesis
  proof (cases "foundation_colors scheme = []")
    case True
    then show ?thesis by (simp add: recommend_complementary_colors_def py_min_empty)
  next
    case f: False
    from py_min_ok [OF wf(1) f, of skin] obtain cf
      where cf: "py_min (distance_key skin) (foundation_colors scheme) = Inr cf"
        "cf \<in> set (foundation_colors scheme)" by blast
    from well_formed_member [OF wf(1) cf(2)] obtain fc where fc: "hex_to_rgb (hex cf) = Inr fc" by blast
    show ?thesis
    proof (cases "eyeshadow_colors scheme = []")
      case True
      then show ?thesis by (simp add: recommend_complementary_colors_def py_min_empty cf)
    next
      case e: False
      from py_min_ok [OF wf(2) e, of skin] obtain ce
        where ce: "py_min (distance_key skin) (eyeshadow_colors scheme) = Inr ce" by blast
      from assms(2) f e have "lipstick_colors scheme = []" by simp
      then show ?thesis by (simp add: recommend_complementary_colors_def py_min_empty cf ce fc)
    qed
  qed
qed

lemma recommend_nonempty:
  assumes "well_formed_scheme scheme"
    and "foundation_colors scheme \<noteq> []" "eyeshadow_colors scheme \<noteq> []" "lipstick_colors scheme \<noteq> []"
  shows "\<exists>cf fc ec lc. py_min (distance_key skin) (foundation_colors scheme) = Inr cf
           \<and> hex_to_rgb (hex cf) = Inr fc \<and> in_range lc
           \<and> recommend_complementary_colors skin lip scheme
               = (case darken_loop lc (calculate_brightness fc) of None \<Rightarrow> None
                  | Some l \<Rightarrow> Some (Inr (fc, ec, l)))"
proof -
  from assms(1) have wf: "well_formed_swatches (foundation_colors scheme)"
    "well_formed_swatches (eyeshadow_colors scheme)" "well_formed_swatches (lipstick_colors scheme)"
    by (simp_all add: well_formed_scheme_def)
  from py_min_ok [OF wf(1) assms(2), of skin] obtain cf
    where cf: "py_min (distance_key skin) (foundation_colors scheme) = Inr cf"
      "cf \<in> set (foundation_colors scheme)" by blast
  from well_formed_member [OF wf(1) cf(2)] obtain fc where fc: "hex_to_rgb (hex cf) = Inr fc" by blast
  from py_min_ok [OF wf(2) assms(3), of skin] obtain ce
    where ce: "py_min (distance_key skin) (eyeshadow_colors scheme) = Inr ce"
      "ce \<in> set (eyeshadow_colors scheme)" by blast
  from well_formed_member [OF wf(2) ce(2)] obtain ec where ec: "hex_to_rgb (hex ce) = Inr ec" by blast
  from py_min_ok [OF wf(3) assms(4), of lip] obtain cl
    where cl: "py_min (distance_key lip) (lipstick_colors scheme) = Inr cl"
      "cl \<in> set (lipstick_colors scheme)" by blast
  from well_formed_member [OF wf(3) cl(2)] obtain lc
    where lc: "hex_to_rgb (hex cl) = Inr lc" and lr: "in_range lc" by blast
  have "recommend_complementary_colors skin lip scheme
             = (case darken_loop lc (calculate_brightness fc) of None \<Rightarrow> None
                | Some l \<Rightarrow> Some (Inr (fc, ec, l)))"
    by (simp add: recommend_complementary_colors_def cf fc ce ec cl lc split: option.splits)
  with cf(1) fc lr show ?thesis by blast
qed

lemma recommend_nonempty_no_error:
  assumes "well_formed_scheme scheme"
    and "foundation_colors scheme \<noteq> []" "eyeshadow_colors scheme \<noteq> []" "lipstick_colors scheme \<noteq> []"
  shows "recommend_complementary_colors skin lip scheme \<noteq> Some (Inl e)"
proof -
  from recommend_nonempty [OF assms, of skin lip] obtain fc ec lc
    where "recommend_complementary_colors skin lip scheme
               = (case darken_loop lc (calculate_brightness fc) of None \<Rightarrow> None
                  | Some l \<Rightarrow> Some (Inr (fc, ec, l)))" by blast
  then show ?thesis by (simp split: option.splits)
qed

lemma recommend_nonempty_returns:
  assumes "well_formed_scheme scheme"
    and "foundation_colors scheme \<noteq> []" "eyeshadow_colors scheme \<noteq> []" "lipstick_colors scheme \<noteq> []"
    and "py_min (distance_key skin) (foundation_colors scheme) = Inr cf"
    and "hex_to_rgb (hex cf) = Inr fc" and "0 < calculate_brightness fc"
  shows "\<exists>res. recommend_complementary_colors skin lip scheme = Some (Inr res)"
proof -
  from recommend_nonempty [OF assms(1-4), of skin lip] assms(5,6) obtain ec lc
    where lr: "in_range lc" and r: "recommend_complementary_colors skin lip scheme
               = (case darken_loop lc (calculate_brightness fc) of None \<Rightarrow> None
                  | Some l \<Rightarrow> Some (Inr (fc, ec, l)))" by auto
  from darken_loop_terminates [OF assms(7) lr] obtain l
    where "darken_loop lc (calculate_brightness fc) = Some l" by blast
  with r have "recommend_complementary_colors skin lip scheme = Some (Inr (fc, ec, l))" by simp
  then show ?thesis by blast
qed

section \<open>Mask builder\<close>

lemma resolve_empty: "resolve Map.empty idxs = []"
  by (simp add: resolve_def)

lemma face_step_empty: "face_step covers Map.empty m entry = m"
  by (cases entry) (simp add: face_step_def resolve_empty)

lemma foldl_face_step_empty: "foldl (face_step covers Map.empty) m entries = m"
  by (induction entries arbitrary: m) (simp_all add: face_step_empty)

lemma zeros_all_zero: "list_all (list_all (\<lambda>v. v = 0)) (zeros s)"
  by (cases s) (simp add: zeros_def list_all_length)

text \<open>
  C8.  With an empty landmark map, whatever the template's shape, the lip index list and
  the rasteriser, both masks are the zero-initialised grids: every element is zero.
\<close>

theorem empty_landmarks_zero_masks:
  "add_reverse_mask_and_lips covers template Map.empty face_connections lip_connections
     = (zeros (shape2 template), zeros (shape2 template))
   \<and> list_all (list_all (\<lambda>v. v = 0)) (zeros (shape2 template))"
  by (simp add: add_reverse_mask_and_lips_def foldl_face_step_empty resolve_empty zeros_all_zero)

lemma binary_mask_zeros: "binary_mask s (zeros s)"
  by (cases s) (simp add: binary_mask_def zeros_def list_all_length)

lemma length_fillPoly: "length (fillPoly covers m pts v) = length m"
  by (simp add: fillPoly_def)

lemma fillPoly_row:
  assumes "y < length m"
  shows "fillPoly covers m pts v ! y
           = map (\<lambda>(x, old). if covers pts y x then v else old) (enumerate 0 (m ! y))"
  using assms by (simp add: fillPoly_def nth_enumerate_eq)

lemma fillPoly_elem:
  assumes "y < length m" "x < length (m ! y)"
  shows "fillPoly covers m pts v ! y ! x = (if covers pts y x then v else m ! y ! x)"
  using assms by (simp add: fillPoly_row nth_enumerate_eq)

lemma binary_mask_fillPoly:
  assumes "binary_mask s m"
  shows "binary_mask s (fillPoly covers m pts 255)"
proof -
  from assms have len: "length m = fst s"
    and rows: "\<And>y. y < length m \<Longrightarrow> length (m ! y) = snd s"
    and elems: "\<And>y x. y < length m \<Longrightarrow> x < length (m ! y) \<Longrightarrow> m ! y ! x = 0 \<or> m ! y ! x = 255"
    by (auto simp: binary_mask_def list_all_length)
  have "length (fillPoly covers m pts 255 ! y) = snd s" if "y < length m" for y
    using that rows by (simp add: fillPoly_row)
  moreover have "fillPoly covers m pts 255 ! y ! x = 0 \<or> fillPoly covers m pts 255 ! y ! x = 255"
    if "y < length m" "x < length (fillPoly covers m pts 255 ! y)" for y x
  proof -
    from that have x: "x < length (m ! y)" by (simp add: fillPoly_row)
    show ?thesis using elems [OF that(1) x] by (simp add: fillPoly_elem that(1) x)
  qed
  ultimately show ?thesis
    using len by (simp add: binary_mask_def list_all_length length_fillPoly)
qed

lemma binary_mask_face_step:
  "binary_mask s m \<Longrightarrow> binary_mask s (face_step covers idx_to_coordinates m entry)"
  by (cases entry) (simp add: face_step_def Let_def binary_mask_fillPoly)

lemma binary_mask_foldl:
  "binary_mask s m \<Longrightarrow> binary_mask s (foldl (face_step covers idx_to_coordinates) m entries)"
  by (induction entries arbitrary: m) (simp_all add: binary_mask_face_step)

lemma binary_mask_shape2:
  assumes "binary_mask (shape2 t) m"
  shows "shape2 m = shape2 t"
proof (cases m)
  case Nil
  with assms show ?thesis by (cases t) (simp_all add: binary_mask_def shape2_def)
next
  case (Cons row rest)
  with assms show ?thesis by (simp add: binary_mask_def shape2_def)
qed

text \<open>
  C10.  Both masks the builder returns have the height and width of the template, and
  every element of either is 0 or 255, for every landmark map, index list and
  rasteriser.
\<close>

theorem masks_binary_and_template_shaped:
  "binary_mask (shape2 template)
     (fst (add_reverse_mask_and_lips covers template idx_to_coordinates face_connections lip_connections))
   \<and> binary_mask (shape2 template)
     (snd (add_reverse_mask_and_lips covers template idx_to_coordinates face_connections lip_connections))
   \<and> shape2 (fst (add_reverse_mask_and_lips covers template idx_to_coordinates face_connections lip_connections))
       = shape2 template
   \<and> shape2 (snd (add_reverse_mask_and_lips covers template idx_to_coordinates face_connections lip_connections))
       = shape2 template"
proof -
  have f: "binary_mask (shape2 template)
     (fst (add_reverse_mask_and_lips covers template idx_to_coordinates face_connections lip_connections))"
    by (simp add: add_reverse_mask_and_lips_def Let_def binary_mask_foldl binary_mask_zeros)
  have l: "binary_mask (shape2 template)
     (snd (add_reverse_mask_and_lips covers template idx_to_coordinates face_connections lip_connections))"
    by (simp add: add_reverse_mask_and_lips_def Let_def binary_mask_fillPoly binary_mask_zeros)
  from f l binary_mask_shape2 [OF f] binary_mask_shape2 [OF l] show ?thesis by simp
qed

section \<open>Colour extractor\<close>

text \<open>The pixels that enter the mean are those with no zero channel at all.\<close>

lemma non_black_pixels_iff:
  "(b, g, r) \<in> set (non_black_pixels masked)
     \<longleftrightarrow> (b, g, r) \<in> set (concat masked) \<and> b \<noteq> 0 \<and> g \<noteq> 0 \<and> r \<noteq> 0"
  by (auto simp: non_black_pixels_def word_greater_zero_iff)

lemma mean_of_nonzero_pixels:
  "compute_mean_skin_color [[(10, 20, 30), (30, 40, 51)], [(0, 0, 0), (7, 7, 7)]] [[1, 1], [0, 0]]
     = Inr (40, 30, 20)"
  by code_simp

text \<open>
  C2.  The claim is that only pixels whose every channel is zero are left out, so that a
  masked region holding a pixel with some nonzero channel never gives the fallback.  The
  source keeps a pixel only when all of its channels are above zero, so a pixel with one
  zero channel is left out too: a single masked pixel with B = 0, G = 100, R = 100 gives
  the fallback of either function, not the mean (100, 100, 0).
\<close>

theorem fallback_for_pixel_with_one_zero_channel:
  "compute_mean_skin_color [[(0, 100, 100)]] [[255]] = Inr (200, 180, 160)
   \<and> compute_mean_lip_color [[(0, 100, 100)]] [[255]] = Inr (150, 50, 70)"
  by code_simp

section \<open>Compositor\<close>

lemma cv_round_of_int: "cv_round (of_int n) = n"
  by (simp add: cv_round_def round_half_even_of_int)

lemma saturate_u8_unat: "saturate_u8 (real (unat a)) = a" for a :: u8
proof -
  have r: "real (unat a) = of_int (uint a)" by simp
  have "uint a < 256" using uint_lt2p [of a] by simp
  then have "max 0 (min 255 (uint a)) = uint a" by simp
  then show ?thesis
    unfolding r saturate_u8_def cv_round_of_int by (simp only: word_of_int_uint)
qed

lemma add_weighted_u8_opacity_0: "add_weighted_u8 a (fl (1 - fl 0)) b (fl 0) 0 = a"
proof -
  have "fl32 (fl32 (fl32 (real (unat a) * fl32 (fl (1 - fl 0))) + fl32 (real (unat b) * fl32 (fl 0)))
          + fl32 0) = real (unat a)"
    by (simp add: fl_0 fl_1 fl32_0 fl32_1 fl32_unsigned)
  then show ?thesis unfolding add_weighted_u8_def by (simp only: saturate_u8_unat)
qed

lemma add_weighted_u8_opacity_1: "add_weighted_u8 a (fl (1 - fl 1)) b (fl 1) 0 = b"
proof -
  have "fl32 (fl32 (fl32 (real (unat a) * fl32 (fl (1 - fl 1))) + fl32 (real (unat b) * fl32 (fl 1)))
          + fl32 0) = real (unat b)"
    by (simp add: fl_0 fl_1 fl32_0 fl32_1 fl32_unsigned)
  then show ?thesis unfolding add_weighted_u8_def by (simp only: saturate_u8_unat)
qed

lemma blend_opacity_0: "bgra2bgr (add_weighted (bgr2bgra p) (fl (1 - fl 0)) l (fl 0) 0) = p"
  by (cases p; cases l)
     (simp only: bgra2bgr_def bgr2bgra_def add_weighted_def add_weighted_u8_opacity_0
        prod.case)

lemma map2_fst: "length xs = length ys \<Longrightarrow> map2 (\<lambda>p l. p) xs ys = xs"
  by (induction xs ys rule: list_induct2) simp_all

lemma zip_grid_fst:
  "same_shape a b \<Longrightarrow> zip_grid (\<lambda>p l. p) a b = a"
proof (induction a arbitrary: b)
  case Nil
  then show ?case by (simp add: zip_grid_def)
next
  case (Cons r a)
  then obtain s b' where b: "b = s # b'" by (cases b) (auto simp: same_shape_def)
  with Cons.prems have "length r = length s" "same_shape a b'" by (auto simp: same_shape_def)
  with Cons.IH [of b'] show ?case by (simp add: b zip_grid_def map2_fst)
qed

lemma same_shape_makeup_layer: "same_shape img m \<Longrightarrow> same_shape img (makeup_layer m c op)"
  by (simp add: same_shape_def makeup_layer_def list_all2_map2)

text \<open>Inside the mask, with opacity 1, a pixel becomes the colour as passed.\<close>

lemma blend_masked_opacity_1:
  "bgra2bgr (add_weighted (bgr2bgra p) (fl (1 - fl 1)) (makeup_bgra (c0, c1, c2) (fl 1)) (fl 1) 0)
     = (word_of_int c0, word_of_int c1, word_of_int c2)"
  by (cases p)
     (simp only: bgra2bgr_def bgr2bgra_def add_weighted_def makeup_bgra_def
        add_weighted_u8_opacity_1 prod.case)

text \<open>With opacity 0 an image that has elements comes back pixel for pixel (the part of
  C4 that holds).\<close>

lemma apply_makeup_opacity_0:
  assumes "same_shape img m" "concat img \<noteq> []"
  shows "apply_makeup_directly img m makeup_color 0 = Inr img"
proof -
  have "zip_grid (\<lambda>p l. bgra2bgr (add_weighted (bgr2bgra p) (fl (1 - fl 0)) l (fl 0) 0)) img
          (makeup_layer m makeup_color (fl 0)) = img"
    unfolding blend_opacity_0
    by (rule zip_grid_fst) (rule same_shape_makeup_layer [OF assms(1)])
  with assms show ?thesis by (simp add: apply_makeup_directly_def Let_def)
qed

text \<open>One channel when both products are integers: no rounding takes place.\<close>

lemma add_weighted_u8_exact:
  assumes "fl32 alpha = al" "fl32 beta = be"
    and "real (unat a) * al = of_int x" "real (unat b) * be = of_int y"
    and "0 \<le> x" "0 \<le> y" "x + y \<le> 255"
  shows "add_weighted_u8 a alpha b beta 0 = word_of_int (x + y)"
proof -
  have x: "fl32 (of_int x) = of_int x" using assms(5,6,7) by (intro fl32_of_int) simp
  have y: "fl32 (of_int y) = of_int y" using assms(5,6,7) by (intro fl32_of_int) simp
  have xy: "fl32 (of_int (x + y)) = of_int (x + y)" using assms(5,6,7) by (intro fl32_of_int) simp
  have "fl32 (fl32 (fl32 (real (unat a) * fl32 alpha) + fl32 (real (unat b) * fl32 beta)) + fl32 0)
          = of_int (x + y)"
    unfolding assms(1-4) x y fl32_0 using xy by simp
  moreover have "max 0 (min 255 (x + y)) = x + y" using assms(5,6,7) by simp
  ultimately show ?thesis
    by (simp only: add_weighted_u8_def saturate_u8_def cv_round_of_int)
qed

text \<open>
  C1.  The claim is that a pixel where the mask is zero is returned unchanged for every
  opacity.  The source blends the whole image against the overlay, which is zero outside
  the mask, so an unmasked pixel is scaled by \<open>1 - opacity\<close>: with opacity 1/2 the
  unmasked pixel (100, 150, 200) comes back as (50, 75, 100).
\<close>

theorem unmasked_pixel_is_scaled:
  "apply_makeup_directly [[(100, 150, 200)]] [[0]] (10, 20, 30) (1 / 2) = Inr [[(50, 75, 100)]]"
proof -
  have w: "fl32 (fl (1 - fl (1 / 2))) = 1 / 2" "fl32 (fl (1 / 2)) = 1 / 2"
    by (simp_all add: fl_half fl32_half)
  have c: "add_weighted_u8 100 (fl (1 - fl (1 / 2))) 0 (fl (1 / 2)) 0 = 50"
    "add_weighted_u8 150 (fl (1 - fl (1 / 2))) 0 (fl (1 / 2)) 0 = 75"
    "add_weighted_u8 200 (fl (1 - fl (1 / 2))) 0 (fl (1 / 2)) 0 = 100"
    using add_weighted_u8_exact [OF w, of 100 50 0 0] add_weighted_u8_exact [OF w, of 150 75 0 0]
      add_weighted_u8_exact [OF w, of 200 100 0 0]
    by simp_all
  have p: "bgra2bgr (add_weighted (bgr2bgra (100, 150, 200)) (fl (1 - fl (1 / 2))) (0, 0, 0, 0)
             (fl (1 / 2)) 0) = (50, 75, 100)"
    by (simp only: bgra2bgr_def bgr2bgra_def add_weighted_def prod.case c)
  show ?thesis
    by (simp add: apply_makeup_directly_def Let_def same_shape_def zip_grid_def makeup_layer_def p)
qed

text \<open>
  C4.  The claim is that opacity 1 sets the masked pixels to the colour and leaves the
  unmasked ones unchanged.  With opacity 1 the masked pixel gets the three numbers of
  the colour in the order they were passed, and the unmasked pixel becomes (0, 0, 0).
\<close>

theorem opacity_1_blackens_unmasked_pixels:
  "apply_makeup_directly [[(100, 150, 200), (100, 150, 200)]] [[0, 255]] (10, 20, 30) 1
     = Inr [[(0, 0, 0), (10, 20, 30)]]"
proof -
  have u: "bgra2bgr (add_weighted (bgr2bgra (100, 150, 200)) (fl (1 - fl 1)) (0, 0, 0, 0) (fl 1) 0)
             = (0, 0, 0)"
    by (simp only: bgra2bgr_def bgr2bgra_def add_weighted_def prod.case add_weighted_u8_opacity_1)
  have m: "bgra2bgr (add_weighted (bgr2bgra (100, 150, 200)) (fl (1 - fl 1))
             (makeup_bgra (10, 20, 30) (fl 1)) (fl 1) 0) = (10, 20, 30)"
    unfolding blend_masked_opacity_1 by simp
  show ?thesis
    by (simp add: apply_makeup_directly_def Let_def same_shape_def zip_grid_def makeup_layer_def u m)
qed

end
